theory Spec2Isabelle
  imports Complex_Main
begin

section \<open>JavaScript values and objects\<close>

text \<open>
  The program is TypeScript; its two entry files \<open>src/index.ts\<close> and \<open>src/chat.ts\<close>
  each define \<open>analyzeChat\<close>, \<open>calculatePercentages\<close> and \<open>findPeakTime\<close>.
  The constants below carry the prefix \<open>index_\<close> or \<open>chat_\<close> of the file they embed.

  A string is the list of the bytes of its UTF-8 encoding, the encoding of the file
  \<open>result.json\<close> it is read from; two strings are equal exactly when their encodings
  are. An optional string field (\<open>from_id?: string\<close>) is a \<open>string option\<close>. JavaScript
  treats both \<open>undefined\<close> and the empty string as false in a condition.
\<close>

definition truthy :: "string option \<Rightarrow> bool" where
  "truthy v = (case v of None \<Rightarrow> False | Some s \<Rightarrow> s \<noteq> [])"

text \<open>The one exception the program can raise: a property read from \<open>undefined\<close>.\<close>

datatype error = TypeError

definition and_then :: "error + 'a \<Rightarrow> ('a \<Rightarrow> error + 'b) \<Rightarrow> error + 'b" where
  "and_then r f = (case r of Inl e \<Rightarrow> Inl e | Inr x \<Rightarrow> f x)"

text \<open>
  A plain object (\<open>Record<string, T>\<close>, created by \<open>{}\<close>) is the list of its own
  properties in creation order, with pairwise different keys; its prototype is
  \<open>Object.prototype\<close>. \<open>obj_get\<close> reads an own property, \<open>obj_set\<close> creates or overwrites
  one (a new key goes to the end, an existing key keeps its place), and \<open>obj_modify\<close>
  changes the value stored under a key in place.
\<close>

type_synonym 'v obj = "(string \<times> 'v) list"

definition obj_get :: "'v obj \<Rightarrow> string \<Rightarrow> 'v option" where
  "obj_get ob k = map_of ob k"

fun obj_set :: "'v obj \<Rightarrow> string \<Rightarrow> 'v \<Rightarrow> 'v obj" where
  "obj_set [] k v = [(k, v)]"
| "obj_set ((k', v') # kvs) k v =
     (if k' = k then (k, v) # kvs else (k', v') # obj_set kvs k v)"

fun obj_modify :: "'v obj \<Rightarrow> string \<Rightarrow> ('v \<Rightarrow> 'v) \<Rightarrow> 'v obj" where
  "obj_modify [] k f = []"
| "obj_modify ((k', v') # kvs) k f =
     (if k' = k then (k', f v') # kvs else (k', v') # obj_modify kvs k f)"

text \<open>
  The expression \<open>ob[k]\<close> looks at the own properties first and at \<open>Object.prototype\<close>
  next. The prototype has the members listed below. Each of them is a function, except
  \<open>__proto__\<close>, an accessor: its getter returns the prototype itself, and its setter
  replaces the prototype when it is given an object and ignores any other value. So
  \<open>ob[k]\<close> is an own value, or an inherited object (true in a condition), or
  \<open>undefined\<close>.

  The assignment \<open>ob[k] = v\<close> creates or overwrites an own property; only for the key
  \<open>__proto__\<close>, on an object that has no own property of that name, it goes to the
  setter and leaves the own properties as they are.
\<close>

definition prototype_members :: "string list" where
  "prototype_members =
     [''constructor'', ''__defineGetter__'', ''__defineSetter__'', ''hasOwnProperty'',
      ''__lookupGetter__'', ''__lookupSetter__'', ''isPrototypeOf'', ''propertyIsEnumerable'',
      ''toString'', ''valueOf'', ''__proto__'', ''toLocaleString'']"

definition inherited :: "string \<Rightarrow> bool" where
  "inherited k = (k \<in> set prototype_members)"

datatype 'v property = Own 'v | Inherited | Undefined

definition obj_lookup :: "'v obj \<Rightarrow> string \<Rightarrow> 'v property" where
  "obj_lookup ob k =
     (case obj_get ob k of
        Some v \<Rightarrow> Own v
      | None \<Rightarrow> if inherited k then Inherited else Undefined)"

definition obj_assign :: "'v obj \<Rightarrow> string \<Rightarrow> 'v \<Rightarrow> 'v obj" where
  "obj_assign ob k v = (if k = ''__proto__'' \<and> obj_get ob k = None then ob else obj_set ob k v)"

text \<open>Decimal digits, and the decimal numeral of a natural number (\<open>String(n)\<close>).\<close>

definition digit_char :: "nat \<Rightarrow> char" where
  "digit_char d = ''0123456789'' ! d"

fun show_nat :: "nat \<Rightarrow> string" where
  "show_nat n = (if n < 10 then [digit_char n] else show_nat (n div 10) @ [digit_char (n mod 10)])"

declare show_nat.simps [simp del]

definition digit_of :: "nat \<Rightarrow> char \<Rightarrow> nat option" where
  "digit_of radix c =
     (let v = (if c \<in> set ''0123456789'' then Some (of_char c - 48)
               else if c \<in> set ''abcdef'' then Some (of_char c - 87)
               else if c \<in> set ''ABCDEF'' then Some (of_char c - 55)
               else None)
      in case v of None \<Rightarrow> None | Some d \<Rightarrow> if d < radix then Some d else None)"

definition digits_value :: "nat \<Rightarrow> string \<Rightarrow> nat" where
  "digits_value radix ds = foldl (\<lambda>a c. a * radix + (case digit_of radix c of Some d \<Rightarrow> d | None \<Rightarrow> 0)) 0 ds"

text \<open>
  An array index is a key that is the canonical decimal numeral of an integer below
  \<open>2^32 - 1\<close>. \<open>Object.entries\<close> and \<open>Object.keys\<close> list the own properties: the
  array-index keys first, in ascending numeric order, then every other key in creation
  order.
\<close>

definition is_array_index :: "string \<Rightarrow> bool" where
  "is_array_index k = (k = show_nat (digits_value 10 k) \<and> digits_value 10 k < 4294967295)"

definition obj_entries :: "'v obj \<Rightarrow> (string \<times> 'v) list" where
  "obj_entries ob =
     sort_key (\<lambda>kv. digits_value 10 (fst kv)) (filter (\<lambda>kv. is_array_index (fst kv)) ob)
     @ filter (\<lambda>kv. \<not> is_array_index (fst kv)) ob"

definition obj_keys :: "'v obj \<Rightarrow> string list" where
  "obj_keys ob = map fst (obj_entries ob)"

subsection \<open>Integer-valued numbers, \<open>parseInt\<close> and \<open>Date\<close>\<close>

text \<open>
  The white space that \<open>parseInt\<close> skips at the start of a string, each character by its
  UTF-8 encoding: tab, line feed, vertical tab, form feed, carriage return, space,
  \<open>U+00A0\<close>, \<open>U+1680\<close>, \<open>U+2000\<close> to \<open>U+200A\<close>, \<open>U+2028\<close>, \<open>U+2029\<close>, \<open>U+202F\<close>,
  \<open>U+205F\<close>, \<open>U+3000\<close> and \<open>U+FEFF\<close>.
\<close>

definition white_space :: "string list" where
  "white_space =
     [[CHR 0x09], [CHR 0x0A], [CHR 0x0B], [CHR 0x0C], [CHR 0x0D], [CHR 0x20],
      [CHR 0xC2, CHR 0xA0], [CHR 0xE1, CHR 0x9A, CHR 0x80],
      [CHR 0xE2, CHR 0x80, CHR 0x80], [CHR 0xE2, CHR 0x80, CHR 0x81],
      [CHR 0xE2, CHR 0x80, CHR 0x82], [CHR 0xE2, CHR 0x80, CHR 0x83],
      [CHR 0xE2, CHR 0x80, CHR 0x84], [CHR 0xE2, CHR 0x80, CHR 0x85],
      [CHR 0xE2, CHR 0x80, CHR 0x86], [CHR 0xE2, CHR 0x80, CHR 0x87],
      [CHR 0xE2, CHR 0x80, CHR 0x88], [CHR 0xE2, CHR 0x80, CHR 0x89],
      [CHR 0xE2, CHR 0x80, CHR 0x8A], [CHR 0xE2, CHR 0x80, CHR 0xA8],
      [CHR 0xE2, CHR 0x80, CHR 0xA9], [CHR 0xE2, CHR 0x80, CHR 0xAF],
      [CHR 0xE2, CHR 0x81, CHR 0x9F], [CHR 0xE3, CHR 0x80, CHR 0x80],
      [CHR 0xEF, CHR 0xBB, CHR 0xBF]]"

definition leading_white_space :: "string \<Rightarrow> string option" where
  "leading_white_space s = find (\<lambda>w. take (length w) s = w) white_space"

function trimStart :: "string \<Rightarrow> string" where
  "trimStart s =
     (case leading_white_space s of
        None \<Rightarrow> s
      | Some w \<Rightarrow> trimStart (drop (length w) s))"
  by pat_completeness auto
termination
proof (relation "measure length")
  show "wf (measure length)" by simp
next
  fix s w
  assume "leading_white_space s = Some w"
  then have w: "w \<in> set white_space" "take (length w) s = w"
    by (auto simp: leading_white_space_def find_Some_iff)
  from w(1) have "w \<noteq> []"
    by (auto simp: white_space_def)
  with w(2) have "s \<noteq> []"
    by auto
  with \<open>w \<noteq> []\<close> show "(drop (length w) s, s) \<in> measure length"
    by simp
qed

declare trimStart.simps [simp del]

text \<open>
  The numbers that hold timestamps and hours are integers or \<open>NaN\<close>. \<open>parseInt\<close>
  without a radix skips leading white space, reads a sign, reads a \<open>0x\<close> prefix as
  hexadecimal, and takes the longest run of digits; no digit gives \<open>NaN\<close>. The result
  is the exact integer (the program's timestamps and hours lie far below \<open>2^53\<close>, where
  a double would round).
\<close>

datatype intnum = IntNum int | IntNaN

definition parseInt :: "string \<Rightarrow> intnum" where
  "parseInt s =
     (let s1 = trimStart s;
          negative = (take 1 s1 = ''-'');
          s2 = (if take 1 s1 = ''-'' \<or> take 1 s1 = ''+'' then drop 1 s1 else s1);
          hex = (take 2 s2 = ''0x'' \<or> take 2 s2 = ''0X'');
          radix = (if hex then 16 else 10);
          s3 = (if hex then drop 2 s2 else s2);
          z = takeWhile (\<lambda>c. digit_of radix c \<noteq> None) s3
      in if z = [] then IntNaN
         else IntNum ((if negative then - 1 else 1) * int (digits_value radix z)))"

text \<open>
  \<open>new Date(v)\<close> holds a time value in milliseconds since the epoch, or is invalid when
  \<open>v\<close> is \<open>NaN\<close> or beyond \<open>8.64e15\<close> in magnitude. Local time depends on the time zone
  of the machine: the parameter \<open>tz\<close> gives the offset of local time from UTC, in
  milliseconds, at a time value.
\<close>

datatype date = TimeValue int | InvalidDate

type_synonym timezone = "int \<Rightarrow> int"

definition times1000 :: "intnum \<Rightarrow> intnum" where
  "times1000 v = (case v of IntNaN \<Rightarrow> IntNaN | IntNum n \<Rightarrow> IntNum (n * 1000))"

definition newDate :: "intnum \<Rightarrow> date" where
  "newDate v =
     (case v of
        IntNaN \<Rightarrow> InvalidDate
      | IntNum t \<Rightarrow> if \<bar>t\<bar> > 8640000000000000 then InvalidDate else TimeValue t)"

definition weekdayNames :: "string list" where
  "weekdayNames =
     [''Sunday'', ''Monday'', ''Tuesday'', ''Wednesday'', ''Thursday'', ''Friday'', ''Saturday'']"

definition toLocaleWeekday :: "timezone \<Rightarrow> date \<Rightarrow> string" where
  "toLocaleWeekday tz d =
     (case d of
        InvalidDate \<Rightarrow> ''Invalid Date''
      | TimeValue t \<Rightarrow> weekdayNames ! nat (((t + tz t) div 86400000 + 4) mod 7))"

definition getHours :: "timezone \<Rightarrow> date \<Rightarrow> intnum" where
  "getHours tz d =
     (case d of
        InvalidDate \<Rightarrow> IntNaN
      | TimeValue t \<Rightarrow> IntNum (((t + tz t) div 3600000) mod 24))"

text \<open>The property key a number turns into when it indexes an object.\<close>

definition number_key :: "intnum \<Rightarrow> string" where
  "number_key v =
     (case v of
        IntNaN \<Rightarrow> ''NaN''
      | IntNum n \<Rightarrow> if n < 0 then CHR ''-'' # show_nat (nat (- n)) else show_nat (nat n))"

section \<open>The data model\<close>

record Message =
  from_id :: "string option"
  from_name :: "string option"
  photo :: "string option"
  media_type :: "string option"
  date_unixtime :: string

record Media =
  photos :: nat
  videoMessages :: nat
  videoFiles :: nat
  voice :: nat
  stickers :: nat

record UserStats =
  messages :: nat
  media :: Media

type_synonym TimeStats = "(nat obj) obj"

record ChatData =
  chat_messages :: "Message list"

text \<open>What \<open>analyzeChat\<close> returns, and the state of its loop.\<close>

record Analysis =
  userStats :: "UserStats obj"
  userNames :: "string obj"
  timeStats :: TimeStats

definition zeroStats :: UserStats where
  "zeroStats =
     \<lparr>messages = 0,
      media = \<lparr>photos = 0, videoMessages = 0, videoFiles = 0, voice = 0, stickers = 0\<rparr>\<rparr>"

definition emptyAnalysis :: Analysis where
  "emptyAnalysis = \<lparr>userStats = [], userNames = [], timeStats = []\<rparr>"

section \<open>\<open>analyzeChat\<close>\<close>

text \<open>
  The statements of the loop body that both files share, each as an update of the
  per-user table.
\<close>

definition inc_messages :: "UserStats \<Rightarrow> UserStats" where
  "inc_messages s = s\<lparr>messages := messages s + 1\<rparr>"

definition inc_photos :: "UserStats \<Rightarrow> UserStats" where
  "inc_photos s = s\<lparr>media := (media s)\<lparr>photos := photos (media s) + 1\<rparr>\<rparr>"

definition inc_videoMessages :: "UserStats \<Rightarrow> UserStats" where
  "inc_videoMessages s = s\<lparr>media := (media s)\<lparr>videoMessages := videoMessages (media s) + 1\<rparr>\<rparr>"

definition inc_videoFiles :: "UserStats \<Rightarrow> UserStats" where
  "inc_videoFiles s = s\<lparr>media := (media s)\<lparr>videoFiles := videoFiles (media s) + 1\<rparr>\<rparr>"

definition inc_voice :: "UserStats \<Rightarrow> UserStats" where
  "inc_voice s = s\<lparr>media := (media s)\<lparr>voice := voice (media s) + 1\<rparr>\<rparr>"

definition inc_stickers :: "UserStats \<Rightarrow> UserStats" where
  "inc_stickers s = s\<lparr>media := (media s)\<lparr>stickers := stickers (media s) + 1\<rparr>\<rparr>"

text \<open>
  \<open>userStats[k].messages++\<close>. On an own entry it increments the counter. When
  \<open>userStats[k]\<close> is an inherited object, the increment lands on that object (a
  function of \<open>Object.prototype\<close>, or for \<open>__proto__\<close> the prototype itself), whose
  property \<open>messages\<close> becomes \<open>NaN\<close>; the table is left as it is. That property is no
  part of any result, and the one lookup it can change, that of the key \<open>messages\<close>
  after an increment on the prototype itself, finds \<open>NaN\<close> where it found \<open>undefined\<close>,
  which a condition treats alike.

  \<open>userStats[k].media.photos++\<close> and its four siblings. On an own entry they increment
  the counter. An inherited object has no property \<open>media\<close>, so the statement reads
  \<open>photos\<close> from \<open>undefined\<close> and raises a \<open>TypeError\<close>.
\<close>

definition increment_messages :: "UserStats obj \<Rightarrow> string \<Rightarrow> error + UserStats obj" where
  "increment_messages us k =
     (case obj_lookup us k of
        Own s \<Rightarrow> Inr (obj_modify us k inc_messages)
      | Inherited \<Rightarrow> Inr us
      | Undefined \<Rightarrow> Inl TypeError)"

definition increment_media ::
    "UserStats obj \<Rightarrow> string \<Rightarrow> (UserStats \<Rightarrow> UserStats) \<Rightarrow> error + UserStats obj" where
  "increment_media us k inc =
     (case obj_lookup us k of
        Own s \<Rightarrow> Inr (obj_modify us k inc)
      | Inherited \<Rightarrow> Inl TypeError
      | Undefined \<Rightarrow> Inl TypeError)"

text \<open>
  \<open>forEach\<close> calls the body on every message in order; an exception of the body ends
  the loop and \<open>analyzeChat\<close> with it.
\<close>

fun forEach :: "('s \<Rightarrow> 'a \<Rightarrow> error + 's) \<Rightarrow> 's \<Rightarrow> 'a list \<Rightarrow> error + 's" where
  "forEach body st [] = Inr st"
| "forEach body st (x # xs) =
     (case body st x of Inl e \<Rightarrow> Inl e | Inr st' \<Rightarrow> forEach body st' xs)"

text \<open>
  \<open>src/index.ts\<close>, lines 38 to 69: the body of \<open>forEach\<close>, statement by statement. The
  keys of the histogram are a weekday name or \<open>Invalid Date\<close>, and under it an hour
  numeral or \<open>NaN\<close>; none of them is a member of \<open>Object.prototype\<close> (lemma
  \<open>histogram_keys_not_inherited\<close>), so the histogram is read and written by its own
  properties.
\<close>

definition index_body :: "timezone \<Rightarrow> Analysis \<Rightarrow> Message \<Rightarrow> error + Analysis" where
  "index_body tz st message =
     (if \<not> truthy (from_id message) then Inr st
      else
        let fid = (case from_id message of Some s \<Rightarrow> s | None \<Rightarrow> []);
            us0 = userStats st;
            us1 = (if obj_lookup us0 fid = Undefined then obj_set us0 fid zeroStats else us0)
        in and_then (increment_messages us1 fid) (\<lambda>us2.
           let names = (case from_name message of
                          Some n \<Rightarrow> if n \<noteq> [] then obj_assign (userNames st) fid n
                                    else userNames st
                        | None \<Rightarrow> userNames st)
           in and_then (if truthy (photo message)
                        then increment_media us2 fid inc_photos else Inr us2) (\<lambda>us3.
              and_then (if media_type message = Some ''video_message''
                        then increment_media us3 fid inc_videoMessages else Inr us3) (\<lambda>us4.
              and_then (if media_type message = Some ''video_file''
                        then increment_media us4 fid inc_videoFiles else Inr us4) (\<lambda>us5.
              and_then (if media_type message = Some ''voice_message''
                        then increment_media us5 fid inc_voice else Inr us5) (\<lambda>us6.
              and_then (if media_type message = Some ''sticker''
                        then increment_media us6 fid inc_stickers else Inr us6) (\<lambda>us7.
                let date = newDate (times1000 (parseInt (date_unixtime message)));
                    dayOfWeek = toLocaleWeekday tz date;
                    hour = number_key (getHours tz date);
                    ts0 = timeStats st;
                    ts1 = (if obj_get ts0 dayOfWeek = None then obj_set ts0 dayOfWeek []
                           else ts0);
                    ts2 = obj_modify ts1 dayOfWeek
                            (\<lambda>hours. obj_set hours hour
                               ((case obj_get hours hour of
                                   None \<Rightarrow> 0
                                 | Some c \<Rightarrow> if c = 0 then 0 else c) + 1))
                in Inr \<lparr>userStats = us7, userNames = names, timeStats = ts2\<rparr>)))))))"

definition index_analyzeChat :: "timezone \<Rightarrow> ChatData \<Rightarrow> error + Analysis" where
  "index_analyzeChat tz jsonData = forEach (index_body tz) emptyAnalysis (chat_messages jsonData)"

text \<open>
  \<open>src/chat.ts\<close>, lines 38 to 80. The histogram cell is created with 0 when it is
  missing (or 0) and then incremented in place.
\<close>

definition chat_body :: "timezone \<Rightarrow> Analysis \<Rightarrow> Message \<Rightarrow> error + Analysis" where
  "chat_body tz st message =
     (let fromUser = from_id message in
      if \<not> truthy fromUser then Inr st
      else
        let fid = (case fromUser of Some s \<Rightarrow> s | None \<Rightarrow> []);
            us0 = userStats st;
            us1 = (if obj_lookup us0 fid = Undefined then obj_set us0 fid zeroStats else us0)
        in and_then (increment_messages us1 fid) (\<lambda>us2.
           let names = (case from_name message of
                          Some n \<Rightarrow> if n \<noteq> [] then obj_assign (userNames st) fid n
                                    else userNames st
                        | None \<Rightarrow> userNames st)
           in and_then (if truthy (photo message)
                        then increment_media us2 fid inc_photos else Inr us2) (\<lambda>us3.
              and_then (if media_type message = Some ''video_message''
                        then increment_media us3 fid inc_videoMessages else Inr us3) (\<lambda>us4.
              and_then (if media_type message = Some ''video_file''
                        then increment_media us4 fid inc_videoFiles else Inr us4) (\<lambda>us5.
              and_then (if media_type message = Some ''voice_message''
                        then increment_media us5 fid inc_voice else Inr us5) (\<lambda>us6.
              and_then (if media_type message = Some ''sticker''
                        then increment_media us6 fid inc_stickers else Inr us6) (\<lambda>us7.
                let date = newDate (times1000 (parseInt (date_unixtime message)));
                    dayOfWeek = toLocaleWeekday tz date;
                    hour = number_key (getHours tz date);
                    ts0 = timeStats st;
                    ts1 = (if obj_get ts0 dayOfWeek = None then obj_set ts0 dayOfWeek []
                           else ts0);
                    ts2 = obj_modify ts1 dayOfWeek
                            (\<lambda>hours. case obj_get hours hour of
                                        None \<Rightarrow> obj_set hours hour 0
                                      | Some c \<Rightarrow> if c = 0 then obj_set hours hour 0 else hours);
                    ts3 = obj_modify ts2 dayOfWeek (\<lambda>hours. obj_modify hours hour (\<lambda>c. c + 1))
                in Inr \<lparr>userStats = us7, userNames = names, timeStats = ts3\<rparr>)))))))"

definition chat_analyzeChat :: "timezone \<Rightarrow> ChatData \<Rightarrow> error + Analysis" where
  "chat_analyzeChat tz jsonData = forEach (chat_body tz) emptyAnalysis (chat_messages jsonData)"

section \<open>Doubles, division and \<open>toFixed\<close>\<close>

text \<open>
  The percentages and the average are quotients of counts, computed in IEEE 754 double
  precision. Only non-negative doubles occur. \<open>Finite m e\<close> is the double of value
  \<open>m * 2^e\<close>. \<open>round_double num den\<close> rounds the exact quotient \<open>num / den\<close> of two
  positive integers to the nearest double, ties to the even significand: the significand
  has 53 bits, the exponent of the last bit is at least \<open>-1074\<close>, and a result of
  \<open>2^1024\<close> or more is \<open>Infinity\<close>.
\<close>

datatype double = Finite int int | Infinity | NaN

function bit_length :: "int \<Rightarrow> nat" where
  "bit_length n = (if n \<le> 0 then 0 else Suc (bit_length (n div 2)))"
  by pat_completeness auto
termination
  by (relation "measure nat") auto

declare bit_length.simps [simp del]

definition floor_log2 :: "int \<Rightarrow> int \<Rightarrow> int" where
  "floor_log2 num den =
     (let k = int (bit_length num) - int (bit_length den)
      in if (if k < 0 then den \<le> num * 2 ^ nat (- k) else den * 2 ^ nat k \<le> num) then k
         else k - 1)"

definition round_double :: "int \<Rightarrow> int \<Rightarrow> double" where
  "round_double num den =
     (if num = 0 then Finite 0 0
      else
        let e = max (floor_log2 num den - 52) (- 1074);
            n = (if e < 0 then num * 2 ^ nat (- e) else num);
            d = (if e < 0 then den else den * 2 ^ nat e);
            q = n div d;
            r = n mod d;
            m = (if d < 2 * r \<or> (d = 2 * r \<and> odd q) then q + 1 else q)
        in if 971 < e \<or> (e = 971 \<and> 2 ^ 53 \<le> m) then Infinity else Finite m e)"

text \<open>
  \<open>a / b\<close> for two counts (integers below \<open>2^53\<close>, which doubles hold exactly), and
  \<open>x * 100\<close>.
\<close>

definition js_div :: "nat \<Rightarrow> nat \<Rightarrow> double" where
  "js_div a b =
     (if b = 0 then (if a = 0 then NaN else Infinity) else round_double (int a) (int b))"

definition js_times100 :: "double \<Rightarrow> double" where
  "js_times100 x =
     (case x of
        Finite m e \<Rightarrow>
          if e < 0 then round_double (m * 100) (2 ^ nat (- e))
          else round_double (m * 100 * 2 ^ nat e) 1
      | Infinity \<Rightarrow> Infinity
      | NaN \<Rightarrow> NaN)"

text \<open>
  \<open>x.toFixed(2)\<close>: the integer \<open>n\<close> for which \<open>n / 100\<close> is nearest to \<open>x\<close> (the larger one
  of two), written with at least three digits and a point before the last two. From
  \<open>1e21\<close> on the result is \<open>String(x)\<close>, in exponent notation; that function of the
  runtime is the parameter \<open>toString\<close>.
\<close>

definition hundredths :: "int \<Rightarrow> int \<Rightarrow> nat" where
  "hundredths m e =
     nat (if e < 0 then (200 * m + 2 ^ nat (- e)) div 2 ^ nat (1 - e) else 100 * m * 2 ^ nat e)"

definition fixed2_string :: "nat \<Rightarrow> string" where
  "fixed2_string n =
     (let digits = show_nat n;
          padded = replicate (3 - length digits) CHR ''0'' @ digits
      in take (length padded - 2) padded @ ''.'' @ drop (length padded - 2) padded)"

definition at_least_1e21 :: "int \<Rightarrow> int \<Rightarrow> bool" where
  "at_least_1e21 m e =
     (if e < 0 then 10 ^ 21 * 2 ^ nat (- e) \<le> m else 10 ^ 21 \<le> m * 2 ^ nat e)"

definition toFixed2 :: "(double \<Rightarrow> string) \<Rightarrow> double \<Rightarrow> string" where
  "toFixed2 toString x =
     (case x of
        NaN \<Rightarrow> ''NaN''
      | Infinity \<Rightarrow> ''Infinity''
      | Finite m e \<Rightarrow>
          if at_least_1e21 m e then toString x else fixed2_string (hundredths m e))"

section \<open>\<open>calculatePercentages\<close>\<close>

text \<open>
  The result maps a user to the record of display-ready strings below. The fields
  \<open>media\<close>, \<open>photos\<close>, ... of the source carry the suffix \<open>_pct\<close> here, since the
  fields of \<open>UserStats\<close> have these names already. The result is the table of the own
  properties of \<open>percentages\<close>: for an own key \<open>__proto__\<close> of \<open>userStats\<close> the
  assignment \<open>percentages[user] = ...\<close> goes to the setter, which replaces the prototype
  and adds no entry.
\<close>

record MediaPercentages =
  userPercentage :: string
  totalPercentage :: string

record MediaTable =
  photos_pct :: MediaPercentages
  videoMessages_pct :: MediaPercentages
  videoFiles_pct :: MediaPercentages
  voice_pct :: MediaPercentages
  stickers_pct :: MediaPercentages

record Percentages =
  total :: string
  media_pct :: MediaTable

text \<open>\<open>((a / b) * 100).toFixed(2) + "%"\<close>\<close>

definition percent :: "(double \<Rightarrow> string) \<Rightarrow> nat \<Rightarrow> nat \<Rightarrow> string" where
  "percent toString a b = toFixed2 toString (js_times100 (js_div a b)) @ ''%''"

text \<open>\<open>src/index.ts\<close>, lines 74 to 106.\<close>

definition index_calculatePercentages ::
    "(double \<Rightarrow> string) \<Rightarrow> UserStats obj \<Rightarrow> nat \<Rightarrow> Percentages obj" where
  "index_calculatePercentages toString userStats' totalMessages =
     foldl
       (\<lambda>percentages entry.
          case entry of (user, stats) \<Rightarrow>
            obj_assign percentages user
              \<lparr>total = percent toString (messages stats) totalMessages,
               media_pct =
                 \<lparr>photos_pct =
                    \<lparr>userPercentage = percent toString (photos (media stats)) (messages stats),
                     totalPercentage = percent toString (photos (media stats)) totalMessages\<rparr>,
                  videoMessages_pct =
                    \<lparr>userPercentage = percent toString (videoMessages (media stats)) (messages stats),
                     totalPercentage = percent toString (videoMessages (media stats)) totalMessages\<rparr>,
                  videoFiles_pct =
                    \<lparr>userPercentage = percent toString (videoFiles (media stats)) (messages stats),
                     totalPercentage = percent toString (videoFiles (media stats)) totalMessages\<rparr>,
                  voice_pct =
                    \<lparr>userPercentage = percent toString (voice (media stats)) (messages stats),
                     totalPercentage = percent toString (voice (media stats)) totalMessages\<rparr>,
                  stickers_pct =
                    \<lparr>userPercentage = percent toString (stickers (media stats)) (messages stats),
                     totalPercentage = percent toString (stickers (media stats)) totalMessages\<rparr>\<rparr>\<rparr>)
       [] (obj_entries userStats')"

text \<open>\<open>src/chat.ts\<close>, lines 85 to 132.\<close>

definition chat_calculatePercentages ::
    "(double \<Rightarrow> string) \<Rightarrow> UserStats obj \<Rightarrow> nat \<Rightarrow> Percentages obj" where
  "chat_calculatePercentages toString userStats' totalMessages =
     foldl
       (\<lambda>percentages entry.
          case entry of (user, stats) \<Rightarrow>
            obj_assign percentages user
              \<lparr>total = percent toString (messages stats) totalMessages,
               media_pct =
                 \<lparr>photos_pct =
                    \<lparr>userPercentage = percent toString (photos (media stats)) (messages stats),
                     totalPercentage = percent toString (photos (media stats)) totalMessages\<rparr>,
                  videoMessages_pct =
                    \<lparr>userPercentage = percent toString (videoMessages (media stats)) (messages stats),
                     totalPercentage = percent toString (videoMessages (media stats)) totalMessages\<rparr>,
                  videoFiles_pct =
                    \<lparr>userPercentage = percent toString (videoFiles (media stats)) (messages stats),
                     totalPercentage = percent toString (videoFiles (media stats)) totalMessages\<rparr>,
                  voice_pct =
                    \<lparr>userPercentage = percent toString (voice (media stats)) (messages stats),
                     totalPercentage = percent toString (voice (media stats)) totalMessages\<rparr>,
                  stickers_pct =
                    \<lparr>userPercentage = percent toString (stickers (media stats)) (messages stats),
                     totalPercentage = percent toString (stickers (media stats)) totalMessages\<rparr>\<rparr>\<rparr>)
       [] (obj_entries userStats')"

section \<open>\<open>findPeakTime\<close>\<close>

text \<open>
  The result of \<open>src/chat.ts\<close> extends the one of \<open>src/index.ts\<close> by \<open>averageMessages\<close>.
  \<open>Object.keys(undefined)\<close> throws a \<open>TypeError\<close>. The variable \<open>peakDay\<close> holds the
  empty string or an own key of \<open>timeStats\<close>, so \<open>timeStats[peakDay]\<close> is an own value or
  \<open>undefined\<close>.
\<close>

record PeakTime =
  peakDay :: string
  peakHour :: intnum
  maxMessages :: nat

record PeakTimeAverage = PeakTime +
  averageMessages :: string

definition noPeak :: PeakTime where
  "noPeak = \<lparr>peakDay = '''', peakHour = IntNum (- 1), maxMessages = 0\<rparr>"

text \<open>\<open>src/index.ts\<close>, lines 108 to 124.\<close>

definition index_findPeakTime :: "TimeStats \<Rightarrow> PeakTime" where
  "index_findPeakTime timeStats' =
     foldl
       (\<lambda>peak entry.
          case entry of (day, hours) \<Rightarrow>
            foldl
              (\<lambda>peak cell.
                 case cell of (hour, count) \<Rightarrow>
                   if maxMessages peak < count
                   then \<lparr>peakDay = day, peakHour = parseInt hour, maxMessages = count\<rparr>
                   else peak)
              peak (obj_entries hours))
       noPeak (obj_entries timeStats')"

text \<open>\<open>src/chat.ts\<close>, lines 134 to 153.\<close>

definition chat_findPeakTime :: "(double \<Rightarrow> string) \<Rightarrow> TimeStats \<Rightarrow> error + PeakTimeAverage" where
  "chat_findPeakTime toString timeStats' =
     (let peak =
            foldl
              (\<lambda>peak entry.
                 case entry of (day, hours) \<Rightarrow>
                   foldl
                     (\<lambda>peak cell.
                        case cell of (hour, count) \<Rightarrow>
                          if maxMessages peak < count
                          then \<lparr>peakDay = day, peakHour = parseInt hour, maxMessages = count\<rparr>
                          else peak)
                     peak (obj_entries hours))
              noPeak (obj_entries timeStats')
      in case obj_get timeStats' (peakDay peak) of
           None \<Rightarrow> Inl TypeError
         | Some hours \<Rightarrow>
             let totalDays = length (obj_keys hours);
                 averageMessages = toFixed2 toString (js_div (maxMessages peak) totalDays)
             in Inr \<lparr>peakDay = peakDay peak, peakHour = peakHour peak,
                     maxMessages = maxMessages peak, averageMessages = averageMessages\<rparr>)"

section \<open>Quantities the specification speaks about\<close>

text \<open>
  A message has a sender when \<open>from_id\<close> is present and not empty; its timestamp is
  parseable when \<open>new Date(parseInt(date_unixtime) * 1000)\<close> is a valid date.
\<close>

definition has_sender :: "Message \<Rightarrow> bool" where
  "has_sender m = (case from_id m of None \<Rightarrow> False | Some s \<Rightarrow> s \<noteq> [])"

definition parseable_timestamp :: "Message \<Rightarrow> bool" where
  "parseable_timestamp m = (newDate (times1000 (parseInt (date_unixtime m))) \<noteq> InvalidDate)"

text \<open>
  The sender id of a message that has a sender. Such a message touches a media counter
  when it carries a photo or one of the four counted media types; it makes the loop
  body raise when it touches a media counter and its sender id is a member of
  \<open>Object.prototype\<close>; and it is counted in the per-user table when its sender id is no
  such member.
\<close>

definition sender_id :: "Message \<Rightarrow> string" where
  "sender_id m = (case from_id m of Some s \<Rightarrow> s | None \<Rightarrow> [])"

definition touches_media :: "Message \<Rightarrow> bool" where
  "touches_media m =
     (truthy (photo m) \<or> media_type m = Some ''video_message'' \<or>
      media_type m = Some ''video_file'' \<or> media_type m = Some ''voice_message'' \<or>
      media_type m = Some ''sticker'')"

definition raises :: "Message \<Rightarrow> bool" where
  "raises m = (has_sender m \<and> inherited (sender_id m) \<and> touches_media m)"

definition counted :: "Message \<Rightarrow> bool" where
  "counted m = (has_sender m \<and> \<not> inherited (sender_id m))"
text \<open>The sum of the \<open>messages\<close> counters of all entries, and the sum of all histogram cells.\<close>

definition total_messages :: "UserStats obj \<Rightarrow> nat" where
  "total_messages us = sum_list (map (\<lambda>kv. messages (snd kv)) us)"

definition cell_total :: "nat obj \<Rightarrow> nat" where
  "cell_total hours = sum_list (map snd hours)"

definition histogram_total :: "TimeStats \<Rightarrow> nat" where
  "histogram_total ts = sum_list (map (\<lambda>kv. cell_total (snd kv)) ts)"

text \<open>
  The TimeHistogram of the specification: day keys pairwise different, and under every
  day at least one hour key, pairwise different, each with a count of at least 1.
\<close>

definition time_histogram :: "TimeStats \<Rightarrow> bool" where
  "time_histogram ts =
     (distinct (map fst ts) \<and>
      (\<forall>entry \<in> set ts.
         snd entry \<noteq> [] \<and> distinct (map fst (snd entry)) \<and>
         (\<forall>cell \<in> set (snd entry). 1 \<le> snd cell)))"

text \<open>Every media counter of an entry is at most its message counter.\<close>

definition counters_bounded :: "UserStats \<Rightarrow> bool" where
  "counters_bounded s =
     (photos (media s) \<le> messages s \<and> videoMessages (media s) \<le> messages s \<and>
      videoFiles (media s) \<le> messages s \<and> voice (media s) \<le> messages s \<and>
      stickers (media s) \<le> messages s)"

text \<open>
  The display name the specification expects for a sender id: the \<open>from\<close> field of the
  last message, in input order, that carries this id and a non-empty \<open>from\<close>.
\<close>

definition names_sender :: "string \<Rightarrow> Message \<Rightarrow> bool" where
  "names_sender k m = (k \<noteq> [] \<and> from_id m = Some k \<and> truthy (from_name m))"

definition latestName :: "Message list \<Rightarrow> string \<Rightarrow> string option" where
  "latestName ms k =
     (case filter (names_sender k) ms of
        [] \<Rightarrow> None
      | m # ms' \<Rightarrow> from_name (last (m # ms')))"

text \<open>
  The net effect of one loop body on the sender's record (lines 54 to 61 of
  \<open>src/index.ts\<close>), and a property holding for every entry of the per-user table; both
  serve the proofs only.
\<close>

definition bump :: "Message \<Rightarrow> UserStats \<Rightarrow> UserStats" where
  "bump m s =
     (let s3 = (if truthy (photo m) then inc_photos (inc_messages s) else inc_messages s);
          s4 = (if media_type m = Some ''video_message'' then inc_videoMessages s3 else s3);
          s5 = (if media_type m = Some ''video_file'' then inc_videoFiles s4 else s4);
          s6 = (if media_type m = Some ''voice_message'' then inc_voice s5 else s5)
      in if media_type m = Some ''sticker'' then inc_stickers s6 else s6)"

definition all_users :: "(UserStats \<Rightarrow> bool) \<Rightarrow> UserStats obj \<Rightarrow> bool" where
  "all_users P us = (\<forall>k s. obj_get us k = Some s \<longrightarrow> P s)"

text \<open>
  The effect of one run of the loop body that returns: on the per-user table, on the name
  index and on the histogram, each as a function of its own. The condition under which
  a run that starts with the table \<open>us\<close> raises. The tables none of whose keys is a
  member of \<open>Object.prototype\<close>. They serve the proofs: lemma \<open>index_body_effect\<close>
  derives them from the loop body.
\<close>

definition count_message :: "UserStats obj \<Rightarrow> Message \<Rightarrow> UserStats obj" where
  "count_message us m =
     (if \<not> has_sender m then us
      else case obj_get us (sender_id m) of
             Some s \<Rightarrow> obj_set us (sender_id m) (bump m s)
           | None \<Rightarrow> if inherited (sender_id m) then us
                     else obj_set us (sender_id m) (bump m zeroStats))"

definition record_name :: "string obj \<Rightarrow> Message \<Rightarrow> string obj" where
  "record_name names m =
     (if \<not> has_sender m then names
      else case from_name m of
             Some n \<Rightarrow> if n \<noteq> [] then obj_assign names (sender_id m) n else names
           | None \<Rightarrow> names)"

definition record_time :: "timezone \<Rightarrow> TimeStats \<Rightarrow> Message \<Rightarrow> TimeStats" where
  "record_time tz ts m =
     (if \<not> has_sender m then ts
      else
        let date = newDate (times1000 (parseInt (date_unixtime m)));
            dayOfWeek = toLocaleWeekday tz date;
            hour = number_key (getHours tz date);
            ts1 = (if obj_get ts dayOfWeek = None then obj_set ts dayOfWeek [] else ts)
        in obj_modify ts1 dayOfWeek
             (\<lambda>hours. obj_set hours hour
                ((case obj_get hours hour of None \<Rightarrow> 0 | Some c \<Rightarrow> if c = 0 then 0 else c) + 1)))"

definition raises_in :: "UserStats obj \<Rightarrow> Message \<Rightarrow> bool" where
  "raises_in us m = (raises m \<and> obj_get us (sender_id m) = None)"

definition plain_keys :: "'v obj \<Rightarrow> bool" where
  "plain_keys ob = (\<forall>k \<in> set (map fst ob). \<not> inherited k)"

text \<open>
  The five media kinds, the counter of a kind in a \<open>UserStats\<close> record and the
  \<open>totalPercentage\<close> string of a kind in a result of \<open>calculatePercentages\<close>; the
  number of hundredths a string such as \<open>33.33%\<close> denotes (its digits, read without
  the point and the sign); the overall count of a kind, and the sum of the per-user
  shares of a kind. \<open>percentages_of\<close> names the record \<open>calculatePercentages\<close> builds for
  one user; it serves the proofs.
\<close>

datatype MediaKind = Photos | VideoMessages | VideoFiles | Voice | Stickers

fun kind_count :: "MediaKind \<Rightarrow> UserStats \<Rightarrow> nat" where
  "kind_count Photos s = photos (media s)"
| "kind_count VideoMessages s = videoMessages (media s)"
| "kind_count VideoFiles s = videoFiles (media s)"
| "kind_count Voice s = voice (media s)"
| "kind_count Stickers s = stickers (media s)"

fun kind_totalPercentage :: "MediaKind \<Rightarrow> Percentages \<Rightarrow> string" where
  "kind_totalPercentage Photos p = totalPercentage (photos_pct (media_pct p))"
| "kind_totalPercentage VideoMessages p = totalPercentage (videoMessages_pct (media_pct p))"
| "kind_totalPercentage VideoFiles p = totalPercentage (videoFiles_pct (media_pct p))"
| "kind_totalPercentage Voice p = totalPercentage (voice_pct (media_pct p))"
| "kind_totalPercentage Stickers p = totalPercentage (stickers_pct (media_pct p))"

definition percent_hundredths :: "string \<Rightarrow> nat" where
  "percent_hundredths s = digits_value 10 (filter (\<lambda>c. c \<noteq> CHR ''.'' \<and> c \<noteq> CHR ''%'') s)"

definition kind_sum :: "MediaKind \<Rightarrow> UserStats obj \<Rightarrow> nat" where
  "kind_sum kind us = sum_list (map (\<lambda>kv. kind_count kind (snd kv)) us)"

definition shares_sum :: "MediaKind \<Rightarrow> Percentages obj \<Rightarrow> nat" where
  "shares_sum kind ps =
     sum_list (map (\<lambda>kv. percent_hundredths (kind_totalPercentage kind (snd kv))) ps)"

definition percentages_of :: "(double \<Rightarrow> string) \<Rightarrow> nat \<Rightarrow> UserStats \<Rightarrow> Percentages" where
  "percentages_of toString totalMessages stats =
     \<lparr>total = percent toString (messages stats) totalMessages,
      media_pct =
        \<lparr>photos_pct =
           \<lparr>userPercentage = percent toString (photos (media stats)) (messages stats),
            totalPercentage = percent toString (photos (media stats)) totalMessages\<rparr>,
         videoMessages_pct =
           \<lparr>userPercentage = percent toString (videoMessages (media stats)) (messages stats),
            totalPercentage = percent toString (videoMessages (media stats)) totalMessages\<rparr>,
         videoFiles_pct =
           \<lparr>userPercentage = percent toString (videoFiles (media stats)) (messages stats),
            totalPercentage = percent toString (videoFiles (media stats)) totalMessages\<rparr>,
         voice_pct =
           \<lparr>userPercentage = percent toString (voice (media stats)) (messages stats),
            totalPercentage = percent toString (voice (media stats)) totalMessages\<rparr>,
         stickers_pct =
           \<lparr>userPercentage = percent toString (stickers (media stats)) (messages stats),
            totalPercentage = percent toString (stickers (media stats)) totalMessages\<rparr>\<rparr>\<rparr>"

text \<open>
  The two loop bodies of \<open>findPeakTime\<close> by name, a histogram with a cell that counts
  at least one message, and what the scan has found so far; they serve the proofs.
\<close>

definition peak_cell :: "string \<Rightarrow> PeakTime \<Rightarrow> string \<times> nat \<Rightarrow> PeakTime" where
  "peak_cell day peak cell =
     (case cell of (hour, count) \<Rightarrow>
        if maxMessages peak < count
        then \<lparr>peakDay = day, peakHour = parseInt hour, maxMessages = count\<rparr>
        else peak)"

definition peak_day :: "PeakTime \<Rightarrow> string \<times> nat obj \<Rightarrow> PeakTime" where
  "peak_day peak entry =
     (case entry of (day, hours) \<Rightarrow> foldl (peak_cell day) peak (obj_entries hours))"

definition has_positive_cell :: "TimeStats \<Rightarrow> bool" where
  "has_positive_cell ts = (\<exists>entry \<in> set ts. \<exists>cell \<in> set (snd entry). 0 < snd cell)"

definition peak_found :: "TimeStats \<Rightarrow> PeakTime \<Rightarrow> bool" where
  "peak_found ts p =
     (p = noPeak \<or>
      (\<exists>hours h. (peakDay p, hours) \<in> set ts \<and> (h, maxMessages p) \<in> set hours \<and>
                 peakHour p = parseInt h \<and> 0 < maxMessages p))"

section \<open>Facts about objects\<close>

lemmas js_eval = truthy_def obj_get_def show_nat.simps digit_char_def digit_of_def digits_value_def
  trimStart.simps leading_white_space_def white_space_def parseInt_def times1000_def newDate_def
  weekdayNames_def toLocaleWeekday_def getHours_def number_key_def zeroStats_def emptyAnalysis_def
  inc_messages_def inc_photos_def inc_videoMessages_def inc_videoFiles_def inc_voice_def
  inc_stickers_def and_then_def obj_lookup_def obj_assign_def inherited_def prototype_members_def
  increment_messages_def increment_media_def Let_def

lemmas double_eval = bit_length.simps floor_log2_def round_double_def js_div_def js_times100_def
  hundredths_def fixed2_string_def at_least_1e21_def toFixed2_def show_nat.simps digit_char_def
  Let_def

lemma obj_get_set: "obj_get (obj_set ob k v) k' = (if k' = k then Some v else obj_get ob k')"
  by (induction ob) (auto simp: obj_get_def)

lemma keys_obj_modify: "map fst (obj_modify ob k f) = map fst ob"
  by (induction ob) auto

lemma keys_obj_set:
  "map fst (obj_set ob k v) = (if obj_get ob k = None then map fst ob @ [k] else map fst ob)"
  by (induction ob) (auto simp: obj_get_def)

lemma obj_get_None_iff: "obj_get ob k = None \<longleftrightarrow> k \<notin> set (map fst ob)"
  by (simp add: obj_get_def map_of_eq_None_iff)

lemma distinct_obj_set: "distinct (map fst ob) \<Longrightarrow> distinct (map fst (obj_set ob k v))"
  by (simp add: keys_obj_set obj_get_None_iff)

lemma obj_modify_set: "obj_modify (obj_set ob k v) k f = obj_set ob k (f v)"
  by (induction ob) auto

lemma obj_modify_present: "obj_get ob k = Some v \<Longrightarrow> obj_modify ob k f = obj_set ob k (f v)"
  by (induction ob) (auto simp: obj_get_def)

lemma obj_modify_modify: "obj_modify (obj_modify ob k f) k g = obj_modify ob k (\<lambda>v. g (f v))"
  by (induction ob) auto

lemma obj_set_set: "obj_set (obj_set ob k v) k w = obj_set ob k w"
  by (induction ob) auto

lemma obj_lookup_set: "obj_lookup (obj_set ob k v) k = Own v"
  by (simp add: obj_lookup_def obj_get_set)

lemma and_then_simps [simp]: "and_then (Inr x) f = f x" "and_then (Inl e) f = Inl e"
  by (simp_all add: and_then_def)

lemma error_cases: "(r :: error + 'a) \<noteq> Inl TypeError \<longleftrightarrow> (\<exists>x. r = Inr x)"
proof (cases r)
  case (Inl e)
  then show ?thesis by (cases e) simp
next
  case (Inr x)
  then show ?thesis by simp
qed

lemma plain_keys_None: "plain_keys ob \<Longrightarrow> inherited k \<Longrightarrow> obj_get ob k = None"
  by (auto simp: plain_keys_def obj_get_None_iff)

lemma plain_keys_set: "plain_keys ob \<Longrightarrow> \<not> inherited k \<Longrightarrow> plain_keys (obj_set ob k v)"
  by (auto simp: plain_keys_def keys_obj_set)

lemma plain_keys_not_proto: "plain_keys ob \<Longrightarrow> ''__proto__'' \<notin> fst ` set ob"
  by (auto simp: plain_keys_def inherited_def prototype_members_def)

text \<open>
  The keys of the histogram: a weekday name or \<open>Invalid Date\<close>, and an hour numeral or
  \<open>NaN\<close>. None is a member of \<open>Object.prototype\<close>.
\<close>

lemma last_show_nat: "last (show_nat n) = digit_char (n mod 10)"
  by (subst show_nat.simps) simp

lemma histogram_keys_not_inherited:
  "\<not> inherited (toLocaleWeekday tz d)" "\<not> inherited (number_key (getHours tz d))"
proof -
  have "nat (((t + tz t) div 86400000 + 4) mod 7) < length weekdayNames" for t
    by (simp add: weekdayNames_def)
  then have day: "weekdayNames ! nat (((t + tz t) div 86400000 + 4) mod 7) \<in> set weekdayNames" for t
    by (rule nth_mem)
  have "\<forall>w \<in> set weekdayNames. \<not> inherited w"
    by (simp add: weekdayNames_def inherited_def prototype_members_def)
  with day have "\<not> inherited (weekdayNames ! nat (((t + tz t) div 86400000 + 4) mod 7))" for t
    by blast
  then show "\<not> inherited (toLocaleWeekday tz d)"
    by (cases d) (simp_all add: toLocaleWeekday_def inherited_def prototype_members_def)
  have all: "\<forall>c \<in> set ''0123456789''. \<forall>k \<in> set prototype_members. last k \<noteq> c"
    by (simp add: prototype_members_def)
  have digit: "last k \<noteq> digit_char i" if "k \<in> set prototype_members" "i < 10" for k i
  proof -
    have "i < length ''0123456789''"
      using that(2) by simp
    then have "digit_char i \<in> set ''0123456789''"
      unfolding digit_char_def by (rule nth_mem)
    from bspec [OF bspec [OF all this] that(1)] show ?thesis .
  qed
  have "show_nat n \<notin> set prototype_members" for n
    using digit [of "show_nat n" "n mod 10"] by (auto simp: last_show_nat)
  then show "\<not> inherited (number_key (getHours tz d))"
    by (cases d) (auto simp: getHours_def number_key_def inherited_def prototype_members_def)
qed

section \<open>The loop body\<close>

lemma has_sender_truthy: "has_sender m = truthy (from_id m)"
  by (simp add: has_sender_def truthy_def)

lemma has_sender_Some: "has_sender m \<Longrightarrow> \<exists>fid. from_id m = Some fid \<and> fid \<noteq> []"
  by (cases "from_id m") (auto simp: has_sender_def)

lemma increment_media_set:
  "(if c then increment_media (obj_set us k v) k inc else Inr (obj_set us k v))
     = Inr (obj_set us k (if c then inc v else v))"
  by (simp add: increment_media_def obj_lookup_set obj_modify_set)

lemma increment_inherited:
  assumes "obj_get us k = None" "inherited k"
  shows "increment_messages us k = Inr us" "increment_media us k inc = Inl TypeError"
  using assms by (simp_all add: increment_messages_def increment_media_def obj_lookup_def)

text \<open>
  The increments of one loop body, for a sender whose entry exists and for a sender id
  whose lookup gives an inherited object.
\<close>

lemma increment_messages_own:
  "obj_get us k = Some v \<Longrightarrow> increment_messages us k = Inr (obj_set us k (inc_messages v))"
  by (simp add: increment_messages_def obj_lookup_def obj_modify_present)

lemma increments_own:
  assumes "obj_get us k = Some v"
  shows "and_then (increment_messages us k) (\<lambda>us2.
           and_then (if truthy (photo m)
                     then increment_media us2 k inc_photos else Inr us2) (\<lambda>us3.
           and_then (if media_type m = Some ''video_message''
                     then increment_media us3 k inc_videoMessages else Inr us3) (\<lambda>us4.
           and_then (if media_type m = Some ''video_file''
                     then increment_media us4 k inc_videoFiles else Inr us4) (\<lambda>us5.
           and_then (if media_type m = Some ''voice_message''
                     then increment_media us5 k inc_voice else Inr us5) (\<lambda>us6.
           and_then (if media_type m = Some ''sticker''
                     then increment_media us6 k inc_stickers else Inr us6) K)))))
         = K (obj_set us k (bump m v))"
  using assms by (simp add: increment_messages_own increment_media_set bump_def Let_def)

lemma increments_inherited:
  assumes "obj_get us k = None" "inherited k"
  shows "and_then (increment_messages us k) (\<lambda>us2.
           and_then (if truthy (photo m)
                     then increment_media us2 k inc_photos else Inr us2) (\<lambda>us3.
           and_then (if media_type m = Some ''video_message''
                     then increment_media us3 k inc_videoMessages else Inr us3) (\<lambda>us4.
           and_then (if media_type m = Some ''video_file''
                     then increment_media us4 k inc_videoFiles else Inr us4) (\<lambda>us5.
           and_then (if media_type m = Some ''voice_message''
                     then increment_media us5 k inc_voice else Inr us5) (\<lambda>us6.
           and_then (if media_type m = Some ''sticker''
                     then increment_media us6 k inc_stickers else Inr us6) K)))))
         = (if touches_media m then Inl TypeError else K us)"
  using assms by (simp add: increment_inherited touches_media_def)

text \<open>
  One run of the loop body: it raises when the message touches a media counter and the
  lookup of its sender id gives an inherited object; otherwise it returns the state whose
  three parts are those of \<open>count_message\<close>, \<open>record_name\<close> and \<open>record_time\<close>.
\<close>

lemma index_body_skip: "\<not> truthy (from_id m) \<Longrightarrow> index_body tz st m = Inr st"
  by (simp add: index_body_def)

lemma index_body_sender:
  assumes "from_id m = Some fid" "fid \<noteq> []"
  shows "index_body tz st m =
           and_then (increment_messages
                       (if obj_lookup (userStats st) fid = Undefined
                        then obj_set (userStats st) fid zeroStats else userStats st) fid) (\<lambda>us2.
           and_then (if truthy (photo m)
                     then increment_media us2 fid inc_photos else Inr us2) (\<lambda>us3.
           and_then (if media_type m = Some ''video_message''
                     then increment_media us3 fid inc_videoMessages else Inr us3) (\<lambda>us4.
           and_then (if media_type m = Some ''video_file''
                     then increment_media us4 fid inc_videoFiles else Inr us4) (\<lambda>us5.
           and_then (if media_type m = Some ''voice_message''
                     then increment_media us5 fid inc_voice else Inr us5) (\<lambda>us6.
           and_then (if media_type m = Some ''sticker''
                     then increment_media us6 fid inc_stickers else Inr us6) (\<lambda>us7.
             Inr \<lparr>userStats = us7, userNames = record_name (userNames st) m,
                  timeStats = record_time tz (timeStats st) m\<rparr>))))))"
proof -
  have sender: "has_sender m" "sender_id m = fid" "truthy (from_id m)"
    using assms by (simp_all add: has_sender_def sender_id_def truthy_def)
  have names: "record_name (userNames st) m
                 = (case from_name m of
                      Some n \<Rightarrow> if n \<noteq> [] then obj_assign (userNames st) fid n else userNames st
                    | None \<Rightarrow> userNames st)"
    by (simp add: record_name_def sender split: option.splits)
  have time: "record_time tz (timeStats st) m
      = obj_modify
          (if obj_get (timeStats st)
                (toLocaleWeekday tz (newDate (times1000 (parseInt (date_unixtime m))))) = None
           then obj_set (timeStats st)
                (toLocaleWeekday tz (newDate (times1000 (parseInt (date_unixtime m))))) []
           else timeStats st)
          (toLocaleWeekday tz (newDate (times1000 (parseInt (date_unixtime m)))))
          (\<lambda>hours. obj_set hours
             (number_key (getHours tz (newDate (times1000 (parseInt (date_unixtime m))))))
             ((case obj_get hours
                     (number_key (getHours tz (newDate (times1000 (parseInt (date_unixtime m))))))
               of None \<Rightarrow> 0 | Some c \<Rightarrow> if c = 0 then 0 else c) + 1))"
    by (simp add: record_time_def sender Let_def)
  show ?thesis
    unfolding index_body_def Let_def names time assms(1) option.case
    using sender(3) by (simp only: assms(1) if_False not_True_eq_False simp_thms)
qed

lemma index_body_effect:
  "index_body tz st m =
     (if raises_in (userStats st) m then Inl TypeError
      else Inr \<lparr>userStats = count_message (userStats st) m,
                userNames = record_name (userNames st) m,
                timeStats = record_time tz (timeStats st) m\<rparr>)"
proof (cases "has_sender m")
  case False
  then show ?thesis
    by (simp add: index_body_skip has_sender_truthy raises_in_def raises_def count_message_def
          record_name_def record_time_def)
next
  case True
  then obtain fid where fid: "from_id m = Some fid" "fid \<noteq> []"
    using has_sender_Some by blast
  have sender: "sender_id m = fid"
    using fid by (simp add: sender_id_def)
  show ?thesis
  proof (cases "obj_get (userStats st) fid")
    case (Some s)
    then have "obj_lookup (userStats st) fid \<noteq> Undefined"
      by (simp add: obj_lookup_def)
    then show ?thesis
      unfolding index_body_sender [OF fid]
      using Some True
      by (simp add: increments_own [OF Some] raises_in_def count_message_def sender)
  next
    case None
    show ?thesis
    proof (cases "inherited fid")
      case False
      with None have look: "obj_lookup (userStats st) fid = Undefined"
        by (simp add: obj_lookup_def)
      have new: "obj_get (obj_set (userStats st) fid zeroStats) fid = Some zeroStats"
        by (simp add: obj_get_set)
      show ?thesis
        unfolding index_body_sender [OF fid]
        using None False True
        by (simp add: look increments_own [OF new] obj_set_set raises_in_def raises_def
              count_message_def sender)
    next
      case inh: True
      with None have look: "obj_lookup (userStats st) fid \<noteq> Undefined"
        by (simp add: obj_lookup_def)
      show ?thesis
        unfolding index_body_sender [OF fid]
        using None inh True
        by (simp add: look increments_inherited [OF None inh] raises_in_def raises_def
              count_message_def sender)
    qed
  qed
qed

section \<open>The two loop bodies agree\<close>

lemma chat_body_eq_index_body: "chat_body tz st m = index_body tz st m"
proof -
  have cell: "obj_modify (case obj_get hs h of None \<Rightarrow> obj_set hs h 0
                 | Some c \<Rightarrow> if c = 0 then obj_set hs h 0 else hs) h (\<lambda>c. c + 1)
            = obj_set hs h ((case obj_get hs h of None \<Rightarrow> 0 | Some c \<Rightarrow> if c = 0 then 0 else c) + 1)"
    for hs :: "nat obj" and h
    by (auto simp: obj_modify_set obj_modify_present split: option.splits)
  show ?thesis
    unfolding chat_body_def index_body_def Let_def obj_modify_modify cell
    by (rule refl)
qed

lemma chat_analyzeChat_eq_index: "chat_analyzeChat tz d = index_analyzeChat tz d"
proof -
  have "chat_body tz = index_body tz"
    by (intro ext) (rule chat_body_eq_index_body)
  then show ?thesis
    by (simp add: chat_analyzeChat_def index_analyzeChat_def)
qed

section \<open>The loop\<close>

text \<open>
  When the loop returns, each part of its result is the fold of the part's own function
  over the messages. It raises exactly when one of the messages does, as long as no key
  of the table it starts with is a member of \<open>Object.prototype\<close>.
\<close>

lemma forEach_effect:
  "forEach (index_body tz) st ms = Inr r \<Longrightarrow>
   userStats r = foldl count_message (userStats st) ms \<and>
   userNames r = foldl record_name (userNames st) ms \<and>
   timeStats r = foldl (record_time tz) (timeStats st) ms"
proof (induction ms arbitrary: st)
  case Nil
  then show ?case by simp
next
  case (Cons m ms)
  from Cons.prems obtain st' where
    step: "index_body tz st m = Inr st'" and rest: "forEach (index_body tz) st' ms = Inr r"
    by (auto split: sum.splits)
  from step have "st' = \<lparr>userStats = count_message (userStats st) m,
                         userNames = record_name (userNames st) m,
                         timeStats = record_time tz (timeStats st) m\<rparr>"
    by (simp add: index_body_effect split: if_splits)
  with Cons.IH [OF rest] show ?case
    by simp
qed

lemma plain_keys_count_message: "plain_keys us \<Longrightarrow> plain_keys (count_message us m)"
  by (auto simp: count_message_def plain_keys_set split: option.splits
           dest: plain_keys_None)

lemma plain_keys_foldl: "plain_keys us \<Longrightarrow> plain_keys (foldl count_message us ms)"
  by (induction ms arbitrary: us) (simp_all add: plain_keys_count_message)

lemma raises_in_plain: "plain_keys us \<Longrightarrow> raises_in us m = raises m"
  by (auto simp: raises_in_def raises_def plain_keys_None)

lemma forEach_raises:
  "plain_keys (userStats st) \<Longrightarrow>
   forEach (index_body tz) st ms = Inl TypeError \<longleftrightarrow> (\<exists>m \<in> set ms. raises m)"
proof (induction ms arbitrary: st)
  case Nil
  then show ?case by simp
next
  case (Cons m ms)
  show ?case
  proof (cases "raises m")
    case True
    then show ?thesis
      using Cons.prems by (simp add: index_body_effect raises_in_plain)
  next
    case False
    define st' where
      "st' = \<lparr>userStats = count_message (userStats st) m,
              userNames = record_name (userNames st) m,
              timeStats = record_time tz (timeStats st) m\<rparr>"
    have step: "index_body tz st m = Inr st'"
      using False Cons.prems by (simp add: index_body_effect raises_in_plain st'_def)
    have "plain_keys (userStats st')"
      using Cons.prems by (simp add: st'_def plain_keys_count_message)
    from Cons.IH [OF this] False show ?thesis
      by (simp add: step)
  qed
qed

lemma analyzeChat_effect:
  assumes "index_analyzeChat tz d = Inr r"
  shows "userStats r = foldl count_message [] (chat_messages d)"
    "userNames r = foldl record_name [] (chat_messages d)"
    "timeStats r = foldl (record_time tz) [] (chat_messages d)"
  using forEach_effect [of tz emptyAnalysis "chat_messages d" r] assms
  by (simp_all add: index_analyzeChat_def emptyAnalysis_def)

text \<open>
  \<open>analyzeChat\<close> raises a \<open>TypeError\<close> exactly when a message of a sender whose id is a
  member of \<open>Object.prototype\<close> touches a media counter, and returns otherwise.
\<close>

lemma analyzeChat_raises:
  "index_analyzeChat tz d = Inl TypeError \<longleftrightarrow> (\<exists>m \<in> set (chat_messages d). raises m)"
  "chat_analyzeChat tz d = Inl TypeError \<longleftrightarrow> (\<exists>m \<in> set (chat_messages d). raises m)"
  unfolding chat_analyzeChat_eq_index index_analyzeChat_def
  by (rule forEach_raises, simp add: emptyAnalysis_def plain_keys_def)+

lemma analyzeChat_returns:
  "(\<exists>r. index_analyzeChat tz d = Inr r) \<longleftrightarrow> (\<forall>m \<in> set (chat_messages d). \<not> raises m)"
  "(\<exists>r. chat_analyzeChat tz d = Inr r) \<longleftrightarrow> (\<forall>m \<in> set (chat_messages d). \<not> raises m)"
  using analyzeChat_raises [of tz d] error_cases [of "index_analyzeChat tz d"]
    error_cases [of "chat_analyzeChat tz d"] by blast+

subsection \<open>The per-user table\<close>

lemma messages_inc [simp]:
  "messages (inc_messages s) = messages s + 1" "media (inc_messages s) = media s"
  "messages (inc_photos s) = messages s" "messages (inc_videoMessages s) = messages s"
  "messages (inc_videoFiles s) = messages s" "messages (inc_voice s) = messages s"
  "messages (inc_stickers s) = messages s"
  by (simp_all add: inc_messages_def inc_photos_def inc_videoMessages_def inc_videoFiles_def
        inc_voice_def inc_stickers_def)

lemma messages_bump: "messages (bump m s) = messages s + 1"
  by (simp add: bump_def Let_def)

lemma counters_bounded_zero: "counters_bounded zeroStats"
  by (simp add: counters_bounded_def zeroStats_def)

lemma counters_bounded_bump: "counters_bounded s \<Longrightarrow> counters_bounded (bump m s)"
  by (simp add: counters_bounded_def bump_def Let_def inc_messages_def inc_photos_def
        inc_videoMessages_def inc_videoFiles_def inc_voice_def inc_stickers_def)

lemma obj_get_count_message:
  "obj_get (count_message us m) k =
     (if counted m \<and> k = sender_id m \<or> has_sender m \<and> k = sender_id m \<and> obj_get us k \<noteq> None
      then Some (bump m (case obj_get us k of None \<Rightarrow> zeroStats | Some s \<Rightarrow> s))
      else obj_get us k)"
  by (auto simp: count_message_def counted_def obj_get_set split: option.splits)

lemma keys_count_message:
  "distinct (map fst us) \<Longrightarrow> distinct (map fst (count_message us m))"
  by (simp add: count_message_def distinct_obj_set split: option.splits)

subsection \<open>Sums over the per-user table\<close>

lemma total_messages_set_new:
  "obj_get us k = None \<Longrightarrow> total_messages (obj_set us k v) = total_messages us + messages v"
  by (induction us) (auto simp: total_messages_def obj_get_def)

lemma total_messages_set_present:
  "obj_get us k = Some s \<Longrightarrow> messages v = messages s + 1 \<Longrightarrow>
   total_messages (obj_set us k v) = total_messages us + 1"
  by (induction us) (auto simp: total_messages_def obj_get_def)

lemma total_messages_count_message:
  assumes "plain_keys us"
  shows "total_messages (count_message us m) = total_messages us + (if counted m then 1 else 0)"
proof (cases "has_sender m")
  case False
  then show ?thesis
    by (simp add: count_message_def counted_def)
next
  case True
  show ?thesis
  proof (cases "obj_get us (sender_id m)")
    case None
    then show ?thesis
      using True
      by (simp add: count_message_def counted_def total_messages_set_new messages_bump zeroStats_def)
  next
    case (Some s)
    then have "\<not> inherited (sender_id m)"
      using plain_keys_None [OF assms] by fastforce
    then show ?thesis
      using True Some
      by (simp add: count_message_def counted_def total_messages_set_present messages_bump)
  qed
qed

lemma total_messages_foldl:
  "plain_keys us \<Longrightarrow>
   total_messages (foldl count_message us ms) = total_messages us + length (filter counted ms)"
  by (induction ms arbitrary: us)
     (simp_all add: total_messages_count_message plain_keys_count_message)

lemma total_messages_analyzeChat:
  assumes "index_analyzeChat tz d = Inr r"
  shows "total_messages (userStats r) = length (filter counted (chat_messages d))"
proof -
  have "plain_keys ([] :: UserStats obj)" "total_messages [] = 0"
    by (simp_all add: plain_keys_def total_messages_def)
  then show ?thesis
    unfolding analyzeChat_effect(1) [OF assms] by (simp add: total_messages_foldl)
qed

subsection \<open>Invariants of every user entry\<close>

lemma all_users_count_message:
  assumes "all_users P us" "\<And>s. P s \<or> s = zeroStats \<Longrightarrow> P (bump m s)"
  shows "all_users P (count_message us m)"
  unfolding all_users_def
proof (intro allI impI)
  fix k s
  assume "obj_get (count_message us m) k = Some s"
  then show "P s"
    using assms
    by (auto simp: obj_get_count_message all_users_def split: if_splits option.splits)
qed

lemma all_users_foldl:
  assumes "all_users P us" "\<And>m s. P s \<or> s = zeroStats \<Longrightarrow> P (bump m s)"
  shows "all_users P (foldl count_message us ms)"
  using assms(1)
proof (induction ms arbitrary: us)
  case Nil
  then show ?case by simp
next
  case (Cons m ms)
  have "all_users P (count_message us m)"
    using Cons.prems assms(2) by (intro all_users_count_message) auto
  then show ?case
    using Cons.IH by simp
qed

lemma all_users_analyzeChat:
  assumes "index_analyzeChat tz d = Inr r" "\<And>m s. P s \<or> s = zeroStats \<Longrightarrow> P (bump m s)"
  shows "all_users P (userStats r)"
  unfolding analyzeChat_effect(1) [OF assms(1)]
  by (rule all_users_foldl) (simp_all add: all_users_def obj_get_def assms(2))

lemma distinct_foldl_count_message:
  "distinct (map fst us) \<Longrightarrow> distinct (map fst (foldl count_message us ms))"
  by (induction ms arbitrary: us) (simp_all add: keys_count_message)

lemma distinct_userStats:
  "index_analyzeChat tz d = Inr r \<Longrightarrow> distinct (map fst (userStats r))"
  by (simp add: analyzeChat_effect(1) distinct_foldl_count_message)

lemma plain_userStats:
  assumes "index_analyzeChat tz d = Inr r"
  shows "plain_keys (userStats r)"
proof -
  have "plain_keys ([] :: UserStats obj)"
    by (simp add: plain_keys_def)
  then show ?thesis
    unfolding analyzeChat_effect(1) [OF assms] by (rule plain_keys_foldl)
qed

lemma entry_userStats:
  "index_analyzeChat tz d = Inr r \<Longrightarrow> (k, s) \<in> set (userStats r) \<Longrightarrow>
   obj_get (userStats r) k = Some s"
  by (simp add: obj_get_def distinct_userStats)

lemma set_obj_entries: "set (obj_entries ob) = set ob"
  by (auto simp: obj_entries_def)

subsection \<open>The name index\<close>

lemma latestName_snoc:
  "latestName (ms @ [m]) k = (if names_sender k m then from_name m else latestName ms k)"
proof (cases "names_sender k m")
  case True
  then show ?thesis
    by (cases "filter (names_sender k) ms") (simp_all add: latestName_def)
next
  case False
  then show ?thesis
    by (simp add: latestName_def)
qed

lemma obj_get_assign:
  "obj_get (obj_assign ob k v) k' =
     (if k' = k \<and> (k = ''__proto__'' \<longrightarrow> obj_get ob k \<noteq> None) then Some v else obj_get ob k')"
  by (auto simp: obj_assign_def obj_get_set)

lemma obj_get_record_name:
  "obj_get (record_name names m) k =
     (if names_sender k m \<and> (k = ''__proto__'' \<longrightarrow> obj_get names k \<noteq> None) then from_name m
      else obj_get names k)"
  by (auto simp: record_name_def names_sender_def has_sender_def sender_id_def truthy_def
        obj_get_assign split: option.splits)

lemma proto_foldl_record_name:
  "obj_get names ''__proto__'' = None \<Longrightarrow>
   obj_get (foldl record_name names ms) ''__proto__'' = None"
  by (induction ms arbitrary: names) (simp_all add: obj_get_record_name)

lemma userNames_foldl:
  "obj_get (foldl record_name [] ms) k = (if k = ''__proto__'' then None else latestName ms k)"
proof (induction ms rule: rev_induct)
  case Nil
  show ?case
    by (simp add: obj_get_def latestName_def)
next
  case (snoc m ms)
  have "obj_get (foldl record_name [] ms) ''__proto__'' = None"
    by (rule proto_foldl_record_name) (simp add: obj_get_def)
  with snoc show ?case
    by (simp add: obj_get_record_name latestName_snoc)
qed

lemma distinct_record_name:
  "distinct (map fst names) \<Longrightarrow> distinct (map fst (record_name names m))"
  by (simp add: record_name_def obj_assign_def distinct_obj_set split: option.splits)

lemma distinct_foldl_record_name:
  "distinct (map fst names) \<Longrightarrow> distinct (map fst (foldl record_name names ms))"
  by (induction ms arbitrary: names) (simp_all add: distinct_record_name)

subsection \<open>The histogram\<close>

lemma cell_total_set:
  "cell_total (obj_set hours h (Suc (case obj_get hours h of None \<Rightarrow> 0 | Some c \<Rightarrow> c)))
     = Suc (cell_total hours)"
  by (induction hours) (auto simp: cell_total_def obj_get_def)

lemma histogram_total_set_new:
  "obj_get ts d = None \<Longrightarrow> histogram_total (obj_set ts d []) = histogram_total ts"
  by (induction ts) (auto simp: histogram_total_def obj_get_def cell_total_def)

lemma histogram_total_modify:
  "obj_get ts d \<noteq> None \<Longrightarrow> (\<And>hours. cell_total (f hours) = Suc (cell_total hours)) \<Longrightarrow>
   histogram_total (obj_modify ts d f) = Suc (histogram_total ts)"
  by (induction ts) (auto simp: histogram_total_def obj_get_def)

lemma histogram_total_record_time:
  "histogram_total (record_time tz ts m) = histogram_total ts + (if has_sender m then 1 else 0)"
proof (cases "has_sender m")
  case False
  then show ?thesis
    by (simp add: record_time_def)
next
  case True
  define day where "day = toLocaleWeekday tz (newDate (times1000 (parseInt (date_unixtime m))))"
  define h where "h = number_key (getHours tz (newDate (times1000 (parseInt (date_unixtime m)))))"
  define ts1 where "ts1 = (if obj_get ts day = None then obj_set ts day [] else ts)"
  define f where
    "f = (\<lambda>hours :: nat obj. obj_set hours h
            ((case obj_get hours h of None \<Rightarrow> 0 | Some c \<Rightarrow> if c = 0 then 0 else c) + 1))"
  have same: "(case v of None \<Rightarrow> 0 | Some c \<Rightarrow> if c = 0 then 0 else c)
                = (case v of None \<Rightarrow> 0 | Some c \<Rightarrow> c)" for v :: "nat option"
    by (simp split: option.splits)
  have step: "cell_total (f hours) = Suc (cell_total hours)" for hours
    by (simp add: f_def same cell_total_set)
  have present: "obj_get ts1 day \<noteq> None"
    by (simp add: ts1_def obj_get_set)
  have "histogram_total ts1 = histogram_total ts"
    by (simp add: ts1_def histogram_total_set_new)
  then have "histogram_total (obj_modify ts1 day f) = Suc (histogram_total ts)"
    using present step by (simp add: histogram_total_modify)
  moreover have "record_time tz ts m = obj_modify ts1 day f"
    using True by (simp add: record_time_def Let_def ts1_def f_def day_def h_def)
  ultimately show ?thesis
    using True by simp
qed

lemma histogram_total_foldl:
  "histogram_total (foldl (record_time tz) ts ms)
     = histogram_total ts + length (filter has_sender ms)"
  by (induction ms arbitrary: ts) (simp_all add: histogram_total_record_time)

lemma histogram_total_analyzeChat:
  assumes "index_analyzeChat tz d = Inr r"
  shows "histogram_total (timeStats r) = length (filter has_sender (chat_messages d))"
proof -
  have "histogram_total [] = 0"
    by (simp add: histogram_total_def)
  then show ?thesis
    unfolding analyzeChat_effect(3) [OF assms] by (simp add: histogram_total_foldl)
qed

lemma time_histogram_positive:
  assumes "time_histogram ts" "ts \<noteq> []"
  shows "has_positive_cell ts"
proof -
  obtain entry where entry: "entry \<in> set ts"
    using assms(2) by (cases ts) auto
  then have "snd entry \<noteq> []" "\<forall>cell \<in> set (snd entry). 1 \<le> snd cell"
    using assms(1) by (auto simp: time_histogram_def)
  moreover from this(1) obtain cell where "cell \<in> set (snd entry)"
    by (cases "snd entry") auto
  ultimately show ?thesis
    using entry unfolding has_positive_cell_def by force
qed

lemma set_obj_set: "set (obj_set ob k v) \<subseteq> insert (k, v) (set ob)"
  by (induction ob) (auto split: if_splits)

lemma obj_set_not_Nil: "obj_set ob k v \<noteq> []"
  by (cases ob) (auto split: if_splits)

lemma set_obj_modify:
  "distinct (map fst ob) \<Longrightarrow>
   set (obj_modify ob k f) = (\<lambda>kv. if fst kv = k then (k, f (snd kv)) else kv) ` set ob"
proof (induction ob)
  case Nil
  show ?case by simp
next
  case (Cons kv ob)
  obtain k' v' where kv: "kv = (k', v')" by (cases kv)
  show ?case
  proof (cases "k' = k")
    case True
    have "\<forall>x \<in> set ob. fst x \<noteq> k"
      using Cons.prems True by (auto simp: kv)
    then have "(\<lambda>kv. if fst kv = k then (k, f (snd kv)) else kv) ` set ob = set ob"
      by force
    then show ?thesis using True by (simp add: kv)
  next
    case False
    then show ?thesis using Cons by (simp add: kv)
  qed
qed

lemma time_histogram_record_time:
  assumes "time_histogram ts"
  shows "time_histogram (record_time tz ts m)"
proof (cases "has_sender m")
  case False
  then show ?thesis using assms by (simp add: record_time_def)
next
  case True
  define day where "day = toLocaleWeekday tz (newDate (times1000 (parseInt (date_unixtime m))))"
  define h where "h = number_key (getHours tz (newDate (times1000 (parseInt (date_unixtime m)))))"
  define ts1 where "ts1 = (if obj_get ts day = None then obj_set ts day [] else ts)"
  define f where
    "f = (\<lambda>hours :: nat obj. obj_set hours h
            ((case obj_get hours h of None \<Rightarrow> 0 | Some c \<Rightarrow> if c = 0 then 0 else c) + 1))"
  have result: "record_time tz ts m = obj_modify ts1 day f"
    using True by (simp add: record_time_def Let_def ts1_def f_def day_def h_def)
  have d0: "distinct (map fst ts)"
    using assms by (simp add: time_histogram_def)
  have d1: "distinct (map fst ts1)"
    using d0 by (simp add: ts1_def distinct_obj_set)
  have old: "snd entry \<noteq> [] \<and> distinct (map fst (snd entry)) \<and> (\<forall>cell \<in> set (snd entry). 1 \<le> snd cell)"
    if "entry \<in> set ts" for entry
    using assms that by (simp add: time_histogram_def)
  have ts1: "fst entry = day \<or> (snd entry \<noteq> [] \<and> distinct (map fst (snd entry)) \<and>
               (\<forall>cell \<in> set (snd entry). 1 \<le> snd cell))"
            "distinct (map fst (snd entry)) \<and> (\<forall>cell \<in> set (snd entry). 1 \<le> snd cell)"
    if "entry \<in> set ts1" for entry
  proof -
    have "entry = (day, []) \<or> entry \<in> set ts"
      using that set_obj_set [of ts day "[]"] by (auto simp: ts1_def split: if_splits)
    then have both:
      "(fst entry = day \<or> (snd entry \<noteq> [] \<and> distinct (map fst (snd entry)) \<and>
               (\<forall>cell \<in> set (snd entry). 1 \<le> snd cell)))
       \<and> distinct (map fst (snd entry)) \<and> (\<forall>cell \<in> set (snd entry). 1 \<le> snd cell)"
    proof
      assume "entry = (day, [])"
      then show ?thesis by simp
    next
      assume "entry \<in> set ts"
      from old [OF this] show ?thesis by blast
    qed
    from both show "fst entry = day \<or> (snd entry \<noteq> [] \<and> distinct (map fst (snd entry)) \<and>
               (\<forall>cell \<in> set (snd entry). 1 \<le> snd cell))"
      by blast
    from both show "distinct (map fst (snd entry)) \<and> (\<forall>cell \<in> set (snd entry). 1 \<le> snd cell)"
      by blast
  qed
  have fresh: "f hours \<noteq> [] \<and> distinct (map fst (f hours)) \<and> (\<forall>cell \<in> set (f hours). 1 \<le> snd cell)"
    if "distinct (map fst hours)" "\<forall>cell \<in> set hours. 1 \<le> snd cell" for hours
  proof -
    have "f hours \<noteq> []"
      by (simp add: f_def obj_set_not_Nil)
    moreover have "distinct (map fst (f hours))"
      using that(1) by (simp add: f_def distinct_obj_set)
    moreover have "\<forall>cell \<in> set (f hours). 1 \<le> snd cell"
      using that(2) set_obj_set [of hours h] by (fastforce simp: f_def)
    ultimately show ?thesis by simp
  qed
  have "snd entry \<noteq> [] \<and> distinct (map fst (snd entry)) \<and> (\<forall>cell \<in> set (snd entry). 1 \<le> snd cell)"
    if "entry \<in> set (obj_modify ts1 day f)" for entry
  proof -
    from that have "entry \<in> (\<lambda>kv. if fst kv = day then (day, f (snd kv)) else kv) ` set ts1"
      by (simp only: set_obj_modify [OF d1])
    then obtain e where e: "e \<in> set ts1"
      "entry = (if fst e = day then (day, f (snd e)) else e)"
      by (rule imageE)
    show ?thesis
    proof (cases "fst e = day")
      case True
      from ts1(2) [OF e(1)] have "distinct (map fst (snd e))" "\<forall>cell \<in> set (snd e). 1 \<le> snd cell"
        by blast+
      from fresh [OF this] show ?thesis using True e(2) by simp
    next
      case False
      then show ?thesis using e ts1(1) [OF e(1)] by simp
    qed
  qed
  then show ?thesis
    unfolding result time_histogram_def using d1 by (simp add: keys_obj_modify)
qed

lemma time_histogram_foldl:
  "time_histogram ts \<Longrightarrow> time_histogram (foldl (record_time tz) ts ms)"
  by (induction ms arbitrary: ts) (simp_all add: time_histogram_record_time)

text \<open>The histogram \<open>analyzeChat\<close> returns is a TimeHistogram.\<close>

lemma time_histogram_analyzeChat:
  assumes "index_analyzeChat tz d = Inr r \<or> chat_analyzeChat tz d = Inr r"
  shows "time_histogram (timeStats r)"
proof -
  from assms have r: "index_analyzeChat tz d = Inr r"
    by (simp add: chat_analyzeChat_eq_index)
  have "time_histogram []"
    by (simp add: time_histogram_def)
  then show ?thesis
    unfolding analyzeChat_effect(3) [OF r] by (rule time_histogram_foldl)
qed

section \<open>The peak finder\<close>

lemma index_findPeakTime_scan:
  "index_findPeakTime ts = foldl peak_day noPeak (obj_entries ts)"
  unfolding index_findPeakTime_def peak_day_def peak_cell_def by (rule refl)

lemma chat_findPeakTime_index:
  "chat_findPeakTime toString ts =
     (case obj_get ts (peakDay (index_findPeakTime ts)) of
        None \<Rightarrow> Inl TypeError
      | Some hours \<Rightarrow>
          Inr (PeakTime.extend (index_findPeakTime ts)
                 \<lparr>averageMessages =
                    toFixed2 toString
                      (js_div (maxMessages (index_findPeakTime ts)) (length (obj_keys hours)))\<rparr>))"
  unfolding chat_findPeakTime_def index_findPeakTime_def Let_def
  by (simp add: PeakTime.extend_def PeakTimeAverage.defs split: option.splits)

lemma length_obj_entries: "length (obj_entries ob) = length ob"
  by (simp add: obj_entries_def sum_length_filter_compl)

lemma peak_cells_mono: "maxMessages p \<le> maxMessages (foldl (peak_cell day) p cells)"
proof (induction cells arbitrary: p)
  case Nil
  show ?case by simp
next
  case (Cons cell cells)
  have "maxMessages p \<le> maxMessages (peak_cell day p cell)"
    by (cases cell) (simp add: peak_cell_def)
  also have "\<dots> \<le> maxMessages (foldl (peak_cell day) (peak_cell day p cell) cells)"
    by (rule Cons.IH)
  finally show ?case by simp
qed

lemma peak_cells_bound:
  "(h, c) \<in> set cells \<Longrightarrow> c \<le> maxMessages (foldl (peak_cell day) p cells)"
proof (induction cells arbitrary: p)
  case Nil
  then show ?case by simp
next
  case (Cons cell cells)
  show ?case
  proof (cases "(h, c) = cell")
    case True
    then have "c \<le> maxMessages (peak_cell day p cell)"
      by (auto simp: peak_cell_def)
    also have "\<dots> \<le> maxMessages (foldl (peak_cell day) (peak_cell day p cell) cells)"
      by (rule peak_cells_mono)
    finally show ?thesis by simp
  next
    case False
    with Cons.prems have "(h, c) \<in> set cells" by auto
    then show ?thesis using Cons.IH by simp
  qed
qed

lemma peak_cells_found:
  assumes "peak_found ts p" "(day, hours) \<in> set ts" "set cells \<subseteq> set hours"
  shows "peak_found ts (foldl (peak_cell day) p cells)"
  using assms(1,3)
proof (induction cells arbitrary: p)
  case Nil
  then show ?case by simp
next
  case (Cons cell cells)
  obtain h c where cell: "cell = (h, c)" by (cases cell)
  have "peak_found ts (peak_cell day p cell)"
  proof (cases "maxMessages p < c")
    case True
    moreover have "(h, c) \<in> set hours" using Cons.prems(2) cell by auto
    ultimately show ?thesis
      using assms(2) unfolding peak_found_def cell peak_cell_def
      by (intro disjI2 exI [of _ hours] exI [of _ h]) simp
  next
    case False
    then show ?thesis using Cons.prems(1) by (simp add: cell peak_cell_def)
  qed
  then show ?case using Cons.IH Cons.prems(2) by simp
qed

lemma peak_days_mono: "maxMessages p \<le> maxMessages (foldl peak_day p entries)"
proof (induction entries arbitrary: p)
  case Nil
  show ?case by simp
next
  case (Cons entry entries)
  have "maxMessages p \<le> maxMessages (peak_day p entry)"
    by (cases entry) (simp add: peak_day_def peak_cells_mono)
  also have "\<dots> \<le> maxMessages (foldl peak_day (peak_day p entry) entries)"
    by (rule Cons.IH)
  finally show ?case by simp
qed

lemma peak_days_bound:
  "(day, hours) \<in> set entries \<Longrightarrow> (h, c) \<in> set hours \<Longrightarrow>
   c \<le> maxMessages (foldl peak_day p entries)"
proof (induction entries arbitrary: p)
  case Nil
  then show ?case by simp
next
  case (Cons entry entries)
  show ?case
  proof (cases "(day, hours) = entry")
    case True
    then have "c \<le> maxMessages (peak_day p entry)"
      using Cons.prems(2) by (auto simp: peak_day_def set_obj_entries intro: peak_cells_bound)
    also have "\<dots> \<le> maxMessages (foldl peak_day (peak_day p entry) entries)"
      by (rule peak_days_mono)
    finally show ?thesis by simp
  next
    case False
    with Cons.prems have "(day, hours) \<in> set entries" by auto
    then show ?thesis using Cons.IH Cons.prems(2) by simp
  qed
qed

lemma peak_days_found:
  assumes "peak_found ts p" "set entries \<subseteq> set ts"
  shows "peak_found ts (foldl peak_day p entries)"
  using assms
proof (induction entries arbitrary: p)
  case Nil
  then show ?case by simp
next
  case (Cons entry entries)
  obtain day hours where entry: "entry = (day, hours)" by (cases entry)
  have "peak_found ts (peak_day p entry)"
    using Cons.prems unfolding entry peak_day_def
    by (auto intro!: peak_cells_found [where hours = hours] simp: set_obj_entries)
  then show ?case using Cons.IH Cons.prems(2) by simp
qed

lemma index_findPeakTime_found: "peak_found ts (index_findPeakTime ts)"
  unfolding index_findPeakTime_scan
  by (rule peak_days_found) (simp_all add: peak_found_def set_obj_entries)

lemma index_findPeakTime_bound:
  "(day, hours) \<in> set ts \<Longrightarrow> (h, c) \<in> set hours \<Longrightarrow> c \<le> maxMessages (index_findPeakTime ts)"
  unfolding index_findPeakTime_scan
  by (rule peak_days_bound) (simp_all add: set_obj_entries)

lemma chat_findPeakTime_average:
  assumes "has_positive_cell ts" "distinct (map fst ts)"
  shows "\<exists>r hours h.
           chat_findPeakTime toString ts = Inr r \<and>
           obj_get ts (peakDay r) = Some hours \<and>
           (h, maxMessages r) \<in> set hours \<and> peakHour r = parseInt h \<and>
           (\<forall>d hs h' c. (d, hs) \<in> set ts \<and> (h', c) \<in> set hs \<longrightarrow> c \<le> maxMessages r) \<and>
           averageMessages r = toFixed2 toString (js_div (maxMessages r) (length (obj_keys hours)))"
proof -
  define p where "p = index_findPeakTime ts"
  obtain d hs h0 c0 where cell: "(d, hs) \<in> set ts" "(h0, c0) \<in> set hs" "0 < c0"
    using assms(1) unfolding has_positive_cell_def by force
  have bound: "c \<le> maxMessages p" if "(d', hs') \<in> set ts" "(h', c) \<in> set hs'" for d' hs' h' c
    using that unfolding p_def by (rule index_findPeakTime_bound)
  have "0 < maxMessages p"
    using bound [OF cell(1,2)] cell(3) by simp
  then have "p \<noteq> noPeak"
    by (auto simp: noPeak_def)
  moreover have "peak_found ts p"
    unfolding p_def by (rule index_findPeakTime_found)
  ultimately obtain hours h where
    peak: "(peakDay p, hours) \<in> set ts" "(h, maxMessages p) \<in> set hours" "peakHour p = parseInt h"
    unfolding peak_found_def by blast
  have get: "obj_get ts (peakDay p) = Some hours"
    using peak(1) assms(2) by (simp add: obj_get_def)
  define r where
    "r = PeakTime.extend p
           \<lparr>averageMessages = toFixed2 toString (js_div (maxMessages p) (length (obj_keys hours)))\<rparr>"
  have r: "peakDay r = peakDay p" "peakHour r = peakHour p" "maxMessages r = maxMessages p"
    "averageMessages r = toFixed2 toString (js_div (maxMessages p) (length (obj_keys hours)))"
    by (simp_all add: r_def PeakTime.extend_def PeakTimeAverage.defs)
  have "chat_findPeakTime toString ts = Inr r"
    by (simp add: chat_findPeakTime_index get r_def flip: p_def)
  then show ?thesis
    using get peak bound r by (intro exI [of _ r] exI [of _ hours] exI [of _ h]) auto
qed

section \<open>Rounding to a double\<close>

lemma bit_length_bounds:
  "0 < n \<Longrightarrow> 2 ^ (bit_length n - 1) \<le> n \<and> n < 2 ^ bit_length n"
proof (induction n rule: bit_length.induct)
  case (1 n)
  show ?case
  proof (cases "n = 1")
    case True
    then show ?thesis
      by (simp add: bit_length.simps)
  next
    case False
    with "1.prems" have half: "0 < n div 2" by simp
    have bl: "bit_length n = Suc (bit_length (n div 2))"
      using "1.prems" by (subst bit_length.simps) simp
    have pos: "0 < bit_length (n div 2)"
      using half by (subst bit_length.simps) simp
    from "1.IH" half "1.prems"
    have IH: "2 ^ (bit_length (n div 2) - 1) \<le> n div 2" "n div 2 < 2 ^ bit_length (n div 2)"
      by simp_all
    have "2 ^ (bit_length n - 1) = 2 * (2::int) ^ (bit_length (n div 2) - 1)"
      using pos by (simp add: bl flip: power_Suc)
    also have "\<dots> \<le> 2 * (n div 2)" using IH(1) by simp
    also have "\<dots> \<le> n" by simp
    finally have lower: "2 ^ (bit_length n - 1) \<le> n" .
    have "n < 2 * (n div 2 + 1)" by presburger
    also have "\<dots> \<le> 2 * 2 ^ bit_length (n div 2)" using IH(2) by simp
    also have "\<dots> = 2 ^ bit_length n" by (simp add: bl)
    finally show ?thesis using lower by simp
  qed
qed

lemma floor_log2_le:
  assumes "0 < num" "0 < den"
  shows "(2::real) powi floor_log2 num den \<le> real_of_int num / real_of_int den"
proof -
  define k where "k = int (bit_length num) - int (bit_length den)"
  have dpos: "0 < real_of_int den" using assms by simp
  define above where
    "above \<longleftrightarrow> (if k < 0 then den \<le> num * 2 ^ nat (- k) else den * 2 ^ nat k \<le> num)"
  have unfold: "floor_log2 num den = (if above then k else k - 1)"
    unfolding floor_log2_def Let_def k_def above_def by (rule refl)
  show ?thesis
  proof (cases above)
    case above: True
    then have True: "if k < 0 then den \<le> num * 2 ^ nat (- k) else den * 2 ^ nat k \<le> num"
      by (simp only: above_def)
    from above have fl: "floor_log2 num den = k"
      by (simp add: unfold)
    have "(2::real) powi k * real_of_int den \<le> real_of_int num"
    proof (cases "k < 0")
      case neg: True
      with True have "den \<le> num * 2 ^ nat (- k)" by simp
      then have "real_of_int den \<le> real_of_int (num * 2 ^ nat (- k))"
        by (simp only: of_int_le_iff)
      then have "real_of_int den \<le> real_of_int num * 2 ^ nat (- k)" by simp
      then have "real_of_int den / 2 ^ nat (- k) \<le> real_of_int num"
        by (simp add: pos_divide_le_eq)
      moreover have "(2::real) powi k = 1 / 2 ^ nat (- k)"
        using neg by (simp add: power_int_def divide_simps)
      ultimately show ?thesis by simp
    next
      case nonneg: False
      with True have "den * 2 ^ nat k \<le> num" by simp
      then have "real_of_int (den * 2 ^ nat k) \<le> real_of_int num"
        by (simp only: of_int_le_iff)
      moreover have "(2::real) powi k = 2 ^ nat k"
        using nonneg by (simp add: power_int_def)
      ultimately show ?thesis by (simp add: mult.commute)
    qed
    then show ?thesis using dpos by (simp add: fl pos_le_divide_eq)
  next
    case False
    then have fl: "floor_log2 num den = k - 1"
      by (simp add: unfold)
    from bit_length_bounds [OF assms(1)] have n: "2 ^ (bit_length num - 1) \<le> num" by simp
    from bit_length_bounds [OF assms(2)] have d: "den < 2 ^ bit_length den" by simp
    have bn: "0 < bit_length num" using assms(1) by (subst bit_length.simps) simp
    have "real_of_int (2 ^ (bit_length num - 1)) \<le> real_of_int num"
      using n by (simp only: of_int_le_iff)
    then have n': "(2::real) powi (int (bit_length num) - 1) \<le> real_of_int num"
      using bn by (simp add: power_int_def nat_diff_distrib')
    have "real_of_int den < real_of_int (2 ^ bit_length den)"
      using d by (simp only: of_int_less_iff)
    then have d': "real_of_int den \<le> (2::real) powi int (bit_length den)"
      by simp
    have exp: "(k - 1) + int (bit_length den) = int (bit_length num) - 1"
      by (simp add: k_def)
    have "(2::real) powi (k - 1) * real_of_int den \<le> 2 powi (k - 1) * 2 powi int (bit_length den)"
      using d' by (intro mult_left_mono) simp_all
    also have "\<dots> = 2 powi ((k - 1) + int (bit_length den))"
      by (rule power_int_add [symmetric]) simp
    also have "\<dots> = 2 powi (int (bit_length num) - 1)"
      by (simp only: exp)
    also have "\<dots> \<le> real_of_int num" by (rule n')
    finally show ?thesis using dpos by (simp add: fl pos_le_divide_eq)
  qed
qed

lemma round_half_error:
  fixes n d :: int
  assumes "0 \<le> n" "0 < d"
  defines "m \<equiv> (if d < 2 * (n mod d) \<or> (d = 2 * (n mod d) \<and> odd (n div d)) then n div d + 1 else n div d)"
  shows "0 \<le> m \<and> \<bar>real_of_int m - real_of_int n / real_of_int d\<bar> \<le> 1 / 2"
proof -
  define r where "r = n mod d"
  define q where "q = n div d"
  have n: "n = q * d + r" by (simp add: q_def r_def)
  have r: "0 \<le> r" "r < d" using assms(2) by (simp_all add: r_def)
  have q: "0 \<le> q" using assms by (simp add: q_def pos_imp_zdiv_nonneg_iff)
  have dpos: "0 < real_of_int d" using assms(2) by simp
  have frac: "real_of_int n / real_of_int d = real_of_int q + real_of_int r / real_of_int d"
    using dpos by (simp add: n field_simps)
  show ?thesis
  proof (cases "d < 2 * r \<or> (d = 2 * r \<and> odd q)")
    case True
    then have m: "m = q + 1" by (simp add: m_def q_def r_def)
    from True have "d \<le> 2 * r" by auto
    then have "real_of_int d \<le> 2 * real_of_int r" by linarith
    then have "1 / 2 \<le> real_of_int r / real_of_int d"
      using dpos by (simp add: field_simps)
    moreover have "real_of_int r / real_of_int d < 1"
      using r dpos by simp
    ultimately show ?thesis using q by (simp add: m frac)
  next
    case False
    then have m: "m = q" by (simp add: m_def q_def r_def)
    from False have "2 * r \<le> d" by auto
    then have "2 * real_of_int r \<le> real_of_int d" by linarith
    then have "real_of_int r / real_of_int d \<le> 1 / 2"
      using dpos by (simp add: field_simps)
    moreover have "0 \<le> real_of_int r / real_of_int d"
      using r dpos by simp
    ultimately show ?thesis using q by (simp add: m frac)
  qed
qed

lemma round_double_error:
  assumes "0 < num" "0 < den" "real_of_int num / real_of_int den < 2 ^ 1023"
  shows "\<exists>m e. round_double num den = Finite m e \<and> 0 \<le> m \<and>
           \<bar>real_of_int m * 2 powi e - real_of_int num / real_of_int den\<bar>
             \<le> (real_of_int num / real_of_int den) / 2 ^ 53 + 2 powi (- 1075)"
proof -
  define x where "x = real_of_int num / real_of_int den"
  define fl where "fl = floor_log2 num den"
  define e where "e = max (fl - 52) (- 1074)"
  define n where "n = (if e < 0 then num * 2 ^ nat (- e) else num)"
  define d where "d = (if e < 0 then den else den * 2 ^ nat e)"
  define m where
    "m = (if d < 2 * (n mod d) \<or> (d = 2 * (n mod d) \<and> odd (n div d)) then n div d + 1 else n div d)"
  have unfold: "round_double num den =
      (if 971 < e \<or> (e = 971 \<and> 2 ^ 53 \<le> m) then Infinity else Finite m e)"
    using assms(1) unfolding round_double_def Let_def m_def d_def n_def e_def fl_def by simp
  have xpos: "0 < x" using assms by (simp add: x_def)
  have fl_le: "2 powi fl \<le> x"
    unfolding fl_def x_def by (rule floor_log2_le) fact+
  have "fl < 1023"
  proof (rule ccontr)
    assume "\<not> fl < 1023"
    then have "(2::real) powi 1023 \<le> 2 powi fl"
      by (intro power_int_increasing) simp_all
    with fl_le assms(3) show False by (simp add: x_def)
  qed
  then have e_le: "e \<le> 970" by (simp add: e_def)
  have npos: "0 \<le> n" and dpos: "0 < d"
    using assms by (simp_all add: n_def d_def)
  have scaled: "real_of_int n / real_of_int d = x / 2 powi e"
  proof (cases "e < 0")
    case True
    then have "(2::real) powi e = 1 / 2 ^ nat (- e)"
      by (simp add: power_int_def divide_simps)
    then show ?thesis using True by (simp add: n_def d_def x_def)
  next
    case False
    then have "(2::real) powi e = 2 ^ nat e"
      by (simp add: power_int_def)
    then show ?thesis using False by (simp add: n_def d_def x_def)
  qed
  from round_half_error [OF npos dpos]
  have m: "0 \<le> m" "\<bar>real_of_int m - real_of_int n / real_of_int d\<bar> \<le> 1 / 2"
    by (simp_all add: m_def)
  have pe: "0 < (2::real) powi e" by simp
  have "real_of_int m * 2 powi e - x = (real_of_int m - x / 2 powi e) * 2 powi e"
    using pe by (simp add: field_simps)
  then have "\<bar>real_of_int m * 2 powi e - x\<bar> = \<bar>real_of_int m - x / 2 powi e\<bar> * 2 powi e"
    using pe by (simp add: abs_mult)
  also have "\<dots> \<le> 1 / 2 * 2 powi e"
    using m(2) pe by (intro mult_right_mono) (simp_all add: scaled)
  also have "\<dots> \<le> x / 2 ^ 53 + 2 powi (- 1075)"
  proof (cases "fl - 52 \<le> - 1074")
    case True
    then have "e = - 1074" by (simp add: e_def)
    then have "1 / 2 * (2::real) powi e = 2 powi (- 1075)"
      by (simp add: power_int_minus field_simps)
    then show ?thesis using xpos by simp
  next
    case False
    then have "fl = e + 52" by (simp add: e_def)
    moreover have "(2::real) powi (e + 52) = 2 powi e * 2 powi 52"
      by (rule power_int_add) simp
    ultimately have "(2::real) powi fl = 2 powi e * 2 ^ 52"
      by simp
    then have "1 / 2 * (2::real) powi e = 2 powi fl / 2 ^ 53"
      by simp
    also have "\<dots> \<le> x / 2 ^ 53"
      using fl_le by (simp add: divide_right_mono)
    finally show ?thesis by simp
  qed
  finally have "\<bar>real_of_int m * 2 powi e - x\<bar> \<le> x / 2 ^ 53 + 2 powi (- 1075)" .
  moreover have "round_double num den = Finite m e"
    using e_le by (simp add: unfold)
  ultimately show ?thesis
    using m(1) unfolding x_def by blast
qed

lemma hundredths_error:
  assumes "0 \<le> m"
  shows "\<bar>real (hundredths m e) - 100 * (real_of_int m * 2 powi e)\<bar> \<le> 1 / 2"
proof (cases "e < 0")
  case False
  then have "(2::real) powi e = 2 ^ nat e"
    by (simp add: power_int_def)
  moreover have "hundredths m e = nat (100 * m * 2 ^ nat e)"
    using False by (simp add: hundredths_def)
  moreover have "0 \<le> 100 * m * 2 ^ nat e"
    using assms by simp
  ultimately show ?thesis by simp
next
  case True
  define P :: int where "P = 2 ^ nat (- e)"
  have Ppos: "0 < P" by (simp add: P_def)
  have pw: "(2::real) powi e = 1 / real_of_int P"
    using True by (simp add: power_int_def P_def divide_simps)
  have "nat (1 - e) = Suc (nat (- e))" using True by simp
  then have P2: "(2::int) ^ nat (1 - e) = 2 * P" by (simp add: P_def)
  define z where "z = real_of_int (200 * m + P) / real_of_int (2 * P)"
  have zval: "z = 100 * (real_of_int m * 2 powi e) + 1 / 2"
    using Ppos by (simp add: z_def pw field_simps)
  have fz: "\<lfloor>z\<rfloor> = (200 * m + P) div (2 * P)"
    unfolding z_def by (rule floor_divide_of_int_eq)
  have h: "hundredths m e = nat \<lfloor>z\<rfloor>"
    using True by (simp add: hundredths_def P2 fz flip: P_def)
  have "0 \<le> z" using assms Ppos by (simp add: z_def)
  then have "0 \<le> \<lfloor>z\<rfloor>" by simp
  then have hr: "real (hundredths m e) = real_of_int \<lfloor>z\<rfloor>" by (simp add: h)
  have "real_of_int \<lfloor>z\<rfloor> \<le> z" "z < real_of_int \<lfloor>z\<rfloor> + 1"
    by linarith+
  then have "\<bar>real_of_int \<lfloor>z\<rfloor> - (z - 1 / 2)\<bar> \<le> 1 / 2"
    by linarith
  moreover have "z - 1 / 2 = 100 * (real_of_int m * 2 powi e)"
    by (simp add: zval)
  ultimately show ?thesis by (simp only: hr)
qed

lemma not_at_least_1e21:
  assumes "0 \<le> m" "real_of_int m * 2 powi e < 10 ^ 21"
  shows "\<not> at_least_1e21 m e"
proof (cases "e < 0")
  case True
  then have pw: "(2::real) powi e = 1 / 2 ^ nat (- e)"
    by (simp add: power_int_def divide_simps)
  have "real_of_int m < 10 ^ 21 * 2 ^ nat (- e)"
    using assms(2) by (simp add: pw pos_divide_less_eq)
  then have "real_of_int m < real_of_int (10 ^ 21 * 2 ^ nat (- e))" by simp
  then have "m < 10 ^ 21 * 2 ^ nat (- e)" by (simp only: of_int_less_iff)
  then show ?thesis using True by (simp add: at_least_1e21_def)
next
  case False
  then have pw: "(2::real) powi e = 2 ^ nat e"
    by (simp add: power_int_def)
  have "real_of_int (m * 2 ^ nat e) < real_of_int (10 ^ 21)"
    using assms(2) by (simp add: pw)
  then have "m * 2 ^ nat e < 10 ^ 21" by (simp only: of_int_less_iff)
  then show ?thesis using False by (simp add: at_least_1e21_def)
qed

lemma js_times100_error:
  assumes "0 < m" "real_of_int m * 2 powi e < 2 ^ 1000"
  shows "\<exists>m' e'. js_times100 (Finite m e) = Finite m' e' \<and> 0 \<le> m' \<and>
           \<bar>real_of_int m' * 2 powi e' - 100 * (real_of_int m * 2 powi e)\<bar>
             \<le> 100 * (real_of_int m * 2 powi e) / 2 ^ 53 + 2 powi (- 1075)"
proof (cases "e < 0")
  case True
  then have pw: "(2::real) powi e = 1 / 2 ^ nat (- e)"
    by (simp add: power_int_def divide_simps)
  have val: "real_of_int (m * 100) / real_of_int (2 ^ nat (- e)) = 100 * (real_of_int m * 2 powi e)"
    by (simp add: pw)
  have "real_of_int (m * 100) / real_of_int (2 ^ nat (- e)) < 2 ^ 1023"
    unfolding val using assms(2) by simp
  from round_double_error [OF _ _ this] assms(1)
  show ?thesis using True unfolding val by (simp add: js_times100_def)
next
  case False
  then have pw: "(2::real) powi e = 2 ^ nat e"
    by (simp add: power_int_def)
  have val: "real_of_int (m * 100 * 2 ^ nat e) / real_of_int 1 = 100 * (real_of_int m * 2 powi e)"
    by (simp add: pw)
  have "real_of_int (m * 100 * 2 ^ nat e) / real_of_int 1 < 2 ^ 1023"
    unfolding val using assms(2) by simp
  from round_double_error [OF _ _ this] assms(1)
  show ?thesis using False unfolding val by (simp add: js_times100_def)
qed

lemma tiny_bound: "(2::real) powi (- 1075) \<le> 1 / 2 ^ 100"
proof -
  have "(2::real) powi (- 1075) \<le> 2 powi (- 100)"
    by (intro power_int_increasing) simp_all
  also have "\<dots> = 1 / 2 ^ 100"
    by (simp add: power_int_minus divide_simps)
  finally show ?thesis .
qed

lemma percent_error:
  assumes "c \<le> T" "0 < T" "T < 2 ^ 32"
  shows "\<exists>n. toFixed2 f (js_times100 (js_div c T)) = fixed2_string n \<and>
             \<bar>real n - 10000 * real c / real T\<bar> \<le> 1 / 2 + 1 / 2 ^ 38"
proof (cases "c = 0")
  case True
  have "js_times100 (js_div 0 T) = Finite 0 0"
    using assms(2) by (simp add: js_div_def round_double_def js_times100_def)
  then have "toFixed2 f (js_times100 (js_div c T)) = fixed2_string 0"
    by (simp add: True toFixed2_def at_least_1e21_def hundredths_def)
  then show ?thesis
    using True by (intro exI [of _ 0]) simp
next
  case False
  define q where "q = real c / real T"
  define tiny :: real where "tiny = 2 powi (- 1075)"
  have tiny: "0 < tiny" "tiny \<le> 1 / 2 ^ 100"
    by (simp_all add: tiny_def tiny_bound)
  have "real T < real (2 ^ 32)"
    using assms(3) by (simp only: of_nat_less_iff)
  then have Tr: "0 < real T" "real T < 2 ^ 32"
    using assms(2) by simp_all
  have "1 \<le> real c" using False by simp
  then have "1 / real T \<le> q"
    using Tr by (simp add: q_def divide_right_mono)
  moreover have "1 / 2 ^ 32 < 1 / real T"
    using Tr by (simp add: divide_strict_left_mono)
  ultimately have q_low: "1 / 2 ^ 32 < q" by simp
  have q_le: "q \<le> 1"
    using assms(1) Tr by (simp add: q_def)
  have qq: "real_of_int (int c) / real_of_int (int T) = q"
    by (simp add: q_def)
  have "real_of_int (int c) / real_of_int (int T) < 2 ^ 1023"
    unfolding qq using q_le by (simp add: order_le_less_trans [of q 1])
  from round_double_error [OF _ _ this] False assms(2)
  obtain m1 e1 where
    d1: "round_double (int c) (int T) = Finite m1 e1" "0 \<le> m1"
      "\<bar>real_of_int m1 * 2 powi e1 - q\<bar> \<le> q / 2 ^ 53 + tiny"
    unfolding qq tiny_def by auto
  define v1 where "v1 = real_of_int m1 * 2 powi e1"
  have v1: "\<bar>v1 - q\<bar> \<le> q / 2 ^ 53 + tiny"
    using d1(3) by (simp add: v1_def)
  define a :: real where "a = 1 / 2 ^ 53"
  define b :: real where "b = 1 / 2 ^ 100"
  have ab: "0 < a" "0 < b" "30000 * a + 10100 * b \<le> 1 / 2 ^ 38" "a + b < 1 / 2 ^ 32"
    "a + b \<le> 1"
    by (simp_all add: a_def b_def)
  have tb: "tiny \<le> b" using tiny by (simp add: b_def)
  have "q / 2 ^ 53 \<le> 1 / 2 ^ 53"
    using q_le by (intro divide_right_mono) simp_all
  then have e1: "\<bar>v1 - q\<bar> \<le> a + b"
    using v1 tb unfolding a_def by linarith
  have v1_pos: "0 < v1"
    using e1 q_low ab by linarith
  have v1_le: "v1 \<le> 2"
    using e1 q_le ab by linarith
  have m1_pos: "0 < m1"
  proof (rule ccontr)
    assume "\<not> 0 < m1"
    with d1(2) have "m1 = 0" by simp
    with v1_pos show False by (simp add: v1_def)
  qed
  have "real_of_int m1 * 2 powi e1 < 2 ^ 1000"
    using v1_le by (simp add: v1_def order_le_less_trans [of _ 2])
  from js_times100_error [OF m1_pos this]
  obtain m2 e2 where
    d2: "js_times100 (Finite m1 e1) = Finite m2 e2" "0 \<le> m2"
      "\<bar>real_of_int m2 * 2 powi e2 - 100 * v1\<bar> \<le> 100 * v1 / 2 ^ 53 + tiny"
    unfolding v1_def tiny_def by auto
  define v2 where "v2 = real_of_int m2 * 2 powi e2"
  have v2: "\<bar>v2 - 100 * v1\<bar> \<le> 100 * v1 / 2 ^ 53 + tiny"
    using d2(3) by (simp add: v2_def)
  have "100 * v1 / 2 ^ 53 \<le> 200 / 2 ^ 53"
    using v1_le by (intro divide_right_mono) simp_all
  then have e2: "\<bar>v2 - 100 * v1\<bar> \<le> 200 * a + b"
    using v2 tb unfolding a_def by linarith
  have "v2 \<le> 1000"
    using e2 v1_le ab by linarith
  then have "real_of_int m2 * 2 powi e2 < 10 ^ 21"
    by (simp add: v2_def order_le_less_trans [of _ 1000])
  from not_at_least_1e21 [OF d2(2) this]
  have str: "toFixed2 f (js_times100 (js_div c T)) = fixed2_string (hundredths m2 e2)"
    using assms(2) by (simp add: js_div_def d1(1) d2(1) toFixed2_def)
  define n where "n = hundredths m2 e2"
  have n: "\<bar>real n - 100 * v2\<bar> \<le> 1 / 2"
    unfolding n_def v2_def by (rule hundredths_error) fact
  have "\<bar>real n - 10000 * q\<bar> \<le> 1 / 2 + 1 / 2 ^ 38"
    using n e2 e1 ab(3) by linarith
  then show ?thesis
    using str by (intro exI [of _ n]) (simp add: n_def q_def)
qed

section \<open>Reading a percentage back\<close>

lemma digits_value_snoc:
  "digits_value r (ds @ [c]) = digits_value r ds * r + (case digit_of r c of Some d \<Rightarrow> d | None \<Rightarrow> 0)"
  by (simp add: digits_value_def)

lemma digit_of_digit_char: "d < 10 \<Longrightarrow> digit_of 10 (digit_char d) = Some d"
proof -
  assume "d < 10"
  then have "d \<in> {0, 1, 2, 3, 4, 5, 6, 7, 8, 9}" by auto
  then show ?thesis
    by (auto simp: digit_of_def digit_char_def)
qed

lemma digit_char_plain: "d < 10 \<Longrightarrow> digit_char d \<noteq> CHR ''.'' \<and> digit_char d \<noteq> CHR ''%''"
proof -
  assume "d < 10"
  then have "d \<in> {0, 1, 2, 3, 4, 5, 6, 7, 8, 9}" by auto
  then show ?thesis
    by (auto simp: digit_char_def)
qed

lemma digits_value_show_nat: "digits_value 10 (show_nat n) = n"
proof (induction n rule: show_nat.induct)
  case (1 n)
  show ?case
  proof (cases "n < 10")
    case True
    then show ?thesis
      by (subst show_nat.simps) (simp add: digits_value_def digit_of_digit_char)
  next
    case False
    then have "digits_value 10 (show_nat n) = digits_value 10 (show_nat (n div 10)) * 10 + n mod 10"
      by (subst show_nat.simps) (simp add: digits_value_snoc digit_of_digit_char)
    then show ?thesis using "1.IH" False by simp
  qed
qed

lemma show_nat_plain: "c \<in> set (show_nat n) \<Longrightarrow> c \<noteq> CHR ''.'' \<and> c \<noteq> CHR ''%''"
proof (induction n arbitrary: c rule: show_nat.induct)
  case (1 n)
  show ?case
  proof (cases "n < 10")
    case True
    then have "show_nat n = [digit_char n]"
      by (subst show_nat.simps) simp
    with "1.prems" have "c = digit_char n" by simp
    then show ?thesis using True by (simp add: digit_char_plain)
  next
    case False
    then have "show_nat n = show_nat (n div 10) @ [digit_char (n mod 10)]"
      by (subst show_nat.simps) simp
    with "1.prems" have "c \<in> set (show_nat (n div 10)) \<or> c = digit_char (n mod 10)"
      by auto
    then show ?thesis
    proof
      assume "c \<in> set (show_nat (n div 10))"
      then show ?thesis using False by (rule "1.IH" [rotated])
    next
      assume "c = digit_char (n mod 10)"
      then show ?thesis using digit_char_plain [of "n mod 10"] by simp
    qed
  qed
qed

lemma digits_value_zeros: "digits_value 10 (replicate k CHR ''0'' @ ds) = digits_value 10 ds"
proof -
  have "foldl (\<lambda>a c. a * 10 + (case digit_of 10 c of Some d \<Rightarrow> d | None \<Rightarrow> 0)) 0 (replicate k CHR ''0'') = 0"
    by (induction k) (simp_all add: digit_of_def)
  then show ?thesis by (simp add: digits_value_def)
qed

lemma percent_hundredths_fixed2: "percent_hundredths (fixed2_string n @ ''%'') = n"
proof -
  define padded where "padded = replicate (3 - length (show_nat n)) CHR ''0'' @ show_nat n"
  define keep where "keep = (\<lambda>c. c \<noteq> CHR ''.'' \<and> c \<noteq> CHR ''%'')"
  have plain: "\<forall>c \<in> set padded. keep c"
    using show_nat_plain by (auto simp: padded_def keep_def)
  have fs: "fixed2_string n @ ''%''
              = take (length padded - 2) padded @ ''.'' @ drop (length padded - 2) padded @ ''%''"
    unfolding fixed2_string_def Let_def padded_def by simp
  have "filter keep (take (length padded - 2) padded @ ''.'' @ drop (length padded - 2) padded @ ''%'')
        = filter keep (take (length padded - 2) padded) @ filter keep (drop (length padded - 2) padded)"
    by (simp add: keep_def)
  also have "\<dots> = filter keep (take (length padded - 2) padded @ drop (length padded - 2) padded)"
    by (simp only: filter_append)
  also have "\<dots> = filter keep padded"
    by (simp only: append_take_drop_id)
  also have "\<dots> = padded"
    using plain by (simp add: filter_id_conv)
  finally have chain:
    "filter keep (take (length padded - 2) padded @ ''.'' @ drop (length padded - 2) padded @ ''%'')
       = padded" .
  have "percent_hundredths (fixed2_string n @ ''%'')
          = digits_value 10 (filter keep
              (take (length padded - 2) padded @ ''.'' @ drop (length padded - 2) padded @ ''%''))"
    unfolding percent_hundredths_def fs keep_def by (rule refl)
  also have "\<dots> = digits_value 10 padded"
    by (simp only: chain)
  also have "\<dots> = n"
    by (simp add: padded_def digits_value_zeros digits_value_show_nat)
  finally show ?thesis .
qed

section \<open>Sums of rounded shares\<close>

lemma obj_set_fresh: "k \<notin> fst ` set ob \<Longrightarrow> obj_set ob k v = ob @ [(k, v)]"
  by (induction ob) auto

lemma foldl_obj_assign_distinct:
  "distinct (map fst xs) \<Longrightarrow> fst ` set xs \<inter> fst ` set acc = {} \<Longrightarrow>
   ''__proto__'' \<notin> fst ` set xs \<Longrightarrow>
   foldl (\<lambda>acc kv. obj_assign acc (fst kv) (g (snd kv))) acc xs
     = acc @ map (\<lambda>kv. (fst kv, g (snd kv))) xs"
proof (induction xs arbitrary: acc)
  case Nil
  show ?case by simp
next
  case (Cons x xs)
  have fresh: "fst x \<notin> fst ` set acc" using Cons.prems(2) by auto
  have "fst x \<noteq> ''__proto__''" using Cons.prems(3) by auto
  then have step: "obj_assign acc (fst x) (g (snd x)) = acc @ [(fst x, g (snd x))]"
    using fresh by (simp add: obj_assign_def obj_set_fresh)
  have "fst ` set xs \<inter> fst ` set (acc @ [(fst x, g (snd x))]) = {}"
    using Cons.prems by auto
  with Cons.IH [of "acc @ [(fst x, g (snd x))]"] Cons.prems(1,3) show ?case
    by (simp add: step)
qed

lemma distinct_obj_entries:
  assumes "distinct (map fst ob)"
  shows "distinct (map fst (obj_entries ob))"
proof -
  have "card (set (map fst (obj_entries ob))) = card (set (map fst ob))"
    by (simp add: set_obj_entries)
  also have "\<dots> = length (map fst ob)"
    using assms by (rule distinct_card)
  also have "\<dots> = length (map fst (obj_entries ob))"
    by (simp add: length_obj_entries)
  finally show ?thesis by (rule card_distinct)
qed

lemma index_calculatePercentages_map:
  assumes "distinct (map fst us)" "''__proto__'' \<notin> fst ` set us"
  shows "index_calculatePercentages f us T
           = map (\<lambda>kv. (fst kv, percentages_of f T (snd kv))) (obj_entries us)"
proof -
  have "index_calculatePercentages f us T
          = foldl (\<lambda>acc kv. obj_assign acc (fst kv) (percentages_of f T (snd kv))) [] (obj_entries us)"
    unfolding index_calculatePercentages_def percentages_of_def
    by (simp add: split_def)
  also have "\<dots> = [] @ map (\<lambda>kv. (fst kv, percentages_of f T (snd kv))) (obj_entries us)"
    by (rule foldl_obj_assign_distinct) (simp_all add: distinct_obj_entries set_obj_entries assms)
  finally show ?thesis by simp
qed

lemma kind_totalPercentage_of:
  "kind_totalPercentage kind (percentages_of f T s) = percent f (kind_count kind s) T"
  by (cases kind) (simp_all add: percentages_of_def)

lemma sum_list_insort_key:
  fixes g :: "'a \<Rightarrow> nat"
  shows "sum_list (map g (insort_key f x xs)) = g x + sum_list (map g xs)"
  by (induction xs) simp_all

lemma sum_list_sort_key:
  fixes g :: "'a \<Rightarrow> nat"
  shows "sum_list (map g (sort_key f xs)) = sum_list (map g xs)"
  by (induction xs) (simp_all add: sum_list_insort_key)

lemma sum_list_filter_split:
  fixes g :: "'a \<Rightarrow> nat"
  shows "sum_list (map g (filter P xs)) + sum_list (map g (filter (\<lambda>x. \<not> P x) xs))
           = sum_list (map g xs)"
  by (induction xs) simp_all

lemma sum_list_obj_entries:
  fixes g :: "string \<times> 'v \<Rightarrow> nat"
  shows "sum_list (map g (obj_entries ob)) = sum_list (map g ob)"
  by (simp add: obj_entries_def sum_list_sort_key sum_list_filter_split)

lemma shares_sum_calculatePercentages:
  assumes "distinct (map fst us)" "''__proto__'' \<notin> fst ` set us"
  shows "shares_sum kind (index_calculatePercentages f us T)
           = sum_list (map (\<lambda>kv. percent_hundredths (percent f (kind_count kind (snd kv)) T)) us)"
proof -
  have "shares_sum kind (index_calculatePercentages f us T)
          = sum_list (map (\<lambda>kv. percent_hundredths (percent f (kind_count kind (snd kv)) T))
              (obj_entries us))"
    by (simp add: shares_sum_def index_calculatePercentages_map [OF assms] comp_def
          kind_totalPercentage_of)
  then show ?thesis by (simp only: sum_list_obj_entries)
qed

lemma percent_hundredths_error:
  assumes "c \<le> T" "0 < T" "T < 2 ^ 32"
  shows "\<bar>real (percent_hundredths (percent f c T)) - 10000 * real c / real T\<bar>
           \<le> 1 / 2 + 1 / 2 ^ 38"
proof -
  from percent_error [OF assms, of f] obtain n where
    n: "toFixed2 f (js_times100 (js_div c T)) = fixed2_string n"
       "\<bar>real n - 10000 * real c / real T\<bar> \<le> 1 / 2 + 1 / 2 ^ 38"
    by blast
  have "percent_hundredths (percent f c T) = n"
    by (simp add: percent_def n(1) percent_hundredths_fixed2)
  then show ?thesis using n(2) by simp
qed

lemma shares_error_sum:
  assumes "\<forall>kv \<in> set us. kind_count kind (snd kv) \<le> T" "0 < T" "T < 2 ^ 32"
  shows "\<bar>real (sum_list (map (\<lambda>kv. percent_hundredths (percent f (kind_count kind (snd kv)) T)) us))
            - 10000 * real (kind_sum kind us) / real T\<bar>
           \<le> real (length us) * (1 / 2 + 1 / 2 ^ 38)"
  using assms(1)
proof (induction us)
  case Nil
  show ?case by (simp add: kind_sum_def)
next
  case (Cons kv us)
  define t where "t = percent_hundredths (percent f (kind_count kind (snd kv)) T)"
  define rest where
    "rest = sum_list (map (\<lambda>kv. percent_hundredths (percent f (kind_count kind (snd kv)) T)) us)"
  have head: "\<bar>real t - 10000 * real (kind_count kind (snd kv)) / real T\<bar> \<le> 1 / 2 + 1 / 2 ^ 38"
    unfolding t_def using Cons.prems assms(2,3) by (intro percent_hundredths_error) simp_all
  have tail: "\<bar>real rest - 10000 * real (kind_sum kind us) / real T\<bar>
                \<le> real (length us) * (1 / 2 + 1 / 2 ^ 38)"
    unfolding rest_def using Cons.prems by (intro Cons.IH) simp
  have split: "10000 * real (kind_sum kind (kv # us)) / real T
                 = 10000 * real (kind_count kind (snd kv)) / real T
                   + 10000 * real (kind_sum kind us) / real T"
    by (simp add: kind_sum_def add_divide_distrib distrib_left)
  have "\<bar>real (t + rest) - 10000 * real (kind_sum kind (kv # us)) / real T\<bar>
          \<le> (1 / 2 + 1 / 2 ^ 38) + real (length us) * (1 / 2 + 1 / 2 ^ 38)"
    using head tail unfolding split by (simp only: of_nat_add; linarith)
  also have "\<dots> = real (length (kv # us)) * (1 / 2 + 1 / 2 ^ 38)"
    by (simp add: algebra_simps)
  finally show ?case by (simp add: t_def rest_def)
qed

lemma userStats_entry_ok:
  assumes "index_analyzeChat tz d = Inr r" "(k, s) \<in> set (userStats r)"
  shows "counters_bounded s \<and> 1 \<le> messages s"
proof -
  have "all_users (\<lambda>s. counters_bounded s \<and> 1 \<le> messages s) (userStats r)"
    by (rule all_users_analyzeChat [OF assms(1)])
       (auto simp: counters_bounded_bump counters_bounded_zero messages_bump)
  moreover have "obj_get (userStats r) k = Some s"
    using assms by (rule entry_userStats)
  ultimately show ?thesis
    by (simp add: all_users_def)
qed

lemma kind_count_le_messages: "counters_bounded s \<Longrightarrow> kind_count kind s \<le> messages s"
  by (cases kind) (simp_all add: counters_bounded_def)

lemma length_le_total_messages:
  "\<forall>kv \<in> set us. 1 \<le> messages (snd kv) \<Longrightarrow> length us \<le> total_messages us"
  by (induction us) (auto simp: total_messages_def)

lemma kind_sum_le_total_messages:
  "\<forall>kv \<in> set us. kind_count kind (snd kv) \<le> messages (snd kv) \<Longrightarrow>
   kind_sum kind us \<le> total_messages us"
  by (induction us) (auto simp: total_messages_def kind_sum_def intro: add_mono)

lemma messages_le_total_messages: "kv \<in> set us \<Longrightarrow> messages (snd kv) \<le> total_messages us"
  by (induction us) (auto simp: total_messages_def)

lemma shares_sum_index:
  assumes "chat_messages d \<noteq> []" "length (chat_messages d) < 2 ^ 32"
    "index_analyzeChat tz d = Inr r"
  shows "\<bar>int (shares_sum kind
               (index_calculatePercentages f (userStats r) (length (chat_messages d))))
          - int (percent_hundredths
               (percent f (kind_sum kind (userStats r)) (length (chat_messages d))))\<bar>
         \<le> (int (length (userStats r)) + 1) div 2"
proof -
  define us where "us = userStats r"
  define T where "T = length (chat_messages d)"
  define S where "S = shares_sum kind (index_calculatePercentages f us T)"
  define N where "N = percent_hundredths (percent f (kind_sum kind us) T)"
  define X where "X = 10000 * real (kind_sum kind us) / real T"
  define k where "k = length us"
  have T: "0 < T" "T < 2 ^ 32"
    using assms(1,2) by (simp_all add: T_def)
  have entry: "counters_bounded (snd kv) \<and> 1 \<le> messages (snd kv)" if "kv \<in> set us" for kv
    using that userStats_entry_ok [OF assms(3), of "fst kv" "snd kv"] by (simp add: us_def)
  have total: "total_messages us \<le> T"
    by (simp add: us_def T_def total_messages_analyzeChat [OF assms(3)])
  have k_le: "k \<le> T"
    using length_le_total_messages [of us] entry total by (auto simp: k_def)
  have counts: "\<forall>kv \<in> set us. kind_count kind (snd kv) \<le> T"
  proof
    fix kv assume kv: "kv \<in> set us"
    have "kind_count kind (snd kv) \<le> messages (snd kv)"
      using entry [OF kv] by (simp add: kind_count_le_messages)
    also have "\<dots> \<le> total_messages us" using kv by (rule messages_le_total_messages)
    finally show "kind_count kind (snd kv) \<le> T" using total by simp
  qed
  have "kind_sum kind us \<le> total_messages us"
    by (rule kind_sum_le_total_messages) (simp add: entry kind_count_le_messages)
  then have whole: "kind_sum kind us \<le> T" using total by simp
  have S_eq: "S = sum_list (map (\<lambda>kv. percent_hundredths (percent f (kind_count kind (snd kv)) T)) us)"
    unfolding S_def us_def
    by (rule shares_sum_calculatePercentages)
       (simp_all add: distinct_userStats [OF assms(3)] plain_keys_not_proto [OF plain_userStats [OF assms(3)]])
  have eS: "\<bar>real S - X\<bar> \<le> real k * (1 / 2 + 1 / 2 ^ 38)"
    unfolding S_eq X_def k_def by (rule shares_error_sum) (use counts T in simp_all)
  have eN: "\<bar>real N - X\<bar> \<le> 1 / 2 + 1 / 2 ^ 38"
    unfolding N_def X_def by (rule percent_hundredths_error) (use whole T in simp_all)
  have "real k + 1 \<le> 2 ^ 32"
  proof -
    have "k + 1 \<le> 2 ^ 32" using k_le T(2) by simp
    then have "real (k + 1) \<le> real (2 ^ 32)" by (simp only: of_nat_le_iff)
    then show ?thesis by simp
  qed
  then have small: "(real k + 1) * (1 / 2 ^ 38) \<le> 1 / 64"
    by simp
  define b :: real where "b = 1 / 2 + 1 / 2 ^ 38"
  have "\<bar>real S - real N\<bar> \<le> real k * b + b"
    using eS eN unfolding b_def [symmetric] by linarith
  also have "\<dots> = real k / 2 + 1 / 2 + (real k + 1) * (1 / 2 ^ 38)"
    by (simp add: b_def field_simps)
  finally have "\<bar>real S - real N\<bar> \<le> real k / 2 + 1 / 2 + 1 / 64"
    using small by linarith
  then have "2 * \<bar>real S - real N\<bar> \<le> real k + 1 + 1 / 32"
    by (simp add: field_simps)
  then have "2 * \<bar>real S - real N\<bar> < real k + 2"
    by simp
  then have "2 * \<bar>real_of_int (int S - int N)\<bar> < real_of_int (int k + 2)"
    by simp
  then have "real_of_int (2 * \<bar>int S - int N\<bar>) < real_of_int (int k + 2)"
    by simp
  then have "2 * \<bar>int S - int N\<bar> < int k + 2"
    by (simp only: of_int_less_iff)
  then have "\<bar>int S - int N\<bar> \<le> (int k + 1) div 2"
    by presburger
  then show ?thesis
    by (simp add: S_def N_def k_def us_def T_def)
qed

lemma chat_calculatePercentages_eq_index:
  "chat_calculatePercentages f us n = index_calculatePercentages f us n"
  unfolding chat_calculatePercentages_def index_calculatePercentages_def by (rule refl)

section \<open>Properties of the aggregation\<close>

text \<open>
  \<open>analyzeChat\<close> returns for every message list in which no message of a sender whose id
  is a member of \<open>Object.prototype\<close> touches a media counter, and raises a \<open>TypeError\<close>
  otherwise (lemmas \<open>analyzeChat_returns\<close> and \<open>analyzeChat_raises\<close>). The properties
  below speak about the result it returns.

  C3. The specification states: for every input message list, the \<open>messages\<close> counters of
  all entries of the \<open>userStats\<close> table returned by \<open>analyzeChat\<close> add up to the number
  of input messages whose \<open>from_id\<close> is present and not empty. The loop body creates the
  entry of a sender only if \<open>userStats[from_id]\<close> is false. For a sender id that is a
  member of \<open>Object.prototype\<close>, such as \<open>constructor\<close>, this lookup gives the
  inherited object: no entry is created, and the increment lands on that object. So
  the counters add up to the number of messages with a sender whose id is no such
  member (lemma \<open>total_messages_analyzeChat\<close>), which is what the specification states
  when no sender id is one. One message of the sender \<open>constructor\<close> gives an empty
  table in both files, and with a photo it makes both files raise.
\<close>

theorem userStats_sum_misses_inherited_ids:
  "index_analyzeChat (\<lambda>t. 0)
      \<lparr>chat_messages = [\<lparr>from_id = Some ''constructor'', from_name = Some ''Al'', photo = None,
                         media_type = None, date_unixtime = ''0''\<rparr>]\<rparr>
     = Inr \<lparr>userStats = [], userNames = [(''constructor'', ''Al'')],
            timeStats = [(''Thursday'', [(''0'', 1)])]\<rparr>
   \<and> chat_analyzeChat (\<lambda>t. 0)
      \<lparr>chat_messages = [\<lparr>from_id = Some ''constructor'', from_name = Some ''Al'', photo = None,
                         media_type = None, date_unixtime = ''0''\<rparr>]\<rparr>
     = Inr \<lparr>userStats = [], userNames = [(''constructor'', ''Al'')],
            timeStats = [(''Thursday'', [(''0'', 1)])]\<rparr>
   \<and> total_messages [] = 0
   \<and> length (filter has_sender
        [\<lparr>from_id = Some ''constructor'', from_name = Some ''Al'', photo = None,
          media_type = None, date_unixtime = ''0''\<rparr>]) = 1
   \<and> index_analyzeChat (\<lambda>t. 0)
      \<lparr>chat_messages = [\<lparr>from_id = Some ''constructor'', from_name = Some ''Al'',
                         photo = Some ''a.jpg'', media_type = None, date_unixtime = ''0''\<rparr>]\<rparr>
     = Inl TypeError
   \<and> chat_analyzeChat (\<lambda>t. 0)
      \<lparr>chat_messages = [\<lparr>from_id = Some ''constructor'', from_name = Some ''Al'',
                         photo = Some ''a.jpg'', media_type = None, date_unixtime = ''0''\<rparr>]\<rparr>
     = Inl TypeError"
  by (simp add: index_analyzeChat_def index_body_def chat_analyzeChat_def chat_body_def js_eval
        total_messages_def has_sender_def)

text \<open>
  C7. Processing a message whose \<open>from_id\<close> is absent leaves the per-user table, the name
  index and the histogram as they were: the loop body returns the state it was given.
\<close>

theorem senderless_message_changes_nothing:
  assumes "from_id m = None"
  shows "index_body tz st m = Inr st \<and> chat_body tz st m = Inr st"
  using assms by (simp add: chat_body_eq_index_body index_body_skip truthy_def)

theorem senderless_message_changes_nothing_witness:
  "index_body (\<lambda>t. 0)
     \<lparr>userStats = [(''u1'', zeroStats\<lparr>messages := 1\<rparr>)], userNames = [(''u1'', ''Al'')],
      timeStats = [(''Tuesday'', [(''22'', 1)])]\<rparr>
     \<lparr>from_id = None, from_name = Some ''Bo'', photo = Some ''p.jpg'',
      media_type = Some ''sticker'', date_unixtime = ''1700000000''\<rparr>
   = Inr \<lparr>userStats = [(''u1'', zeroStats\<lparr>messages := 1\<rparr>)], userNames = [(''u1'', ''Al'')],
          timeStats = [(''Tuesday'', [(''22'', 1)])]\<rparr>
   \<and> chat_body (\<lambda>t. 0)
     \<lparr>userStats = [(''u1'', zeroStats\<lparr>messages := 1\<rparr>)], userNames = [(''u1'', ''Al'')],
      timeStats = [(''Tuesday'', [(''22'', 1)])]\<rparr>
     \<lparr>from_id = None, from_name = Some ''Bo'', photo = Some ''p.jpg'',
      media_type = Some ''sticker'', date_unixtime = ''1700000000''\<rparr>
   = Inr \<lparr>userStats = [(''u1'', zeroStats\<lparr>messages := 1\<rparr>)], userNames = [(''u1'', ''Al'')],
          timeStats = [(''Tuesday'', [(''22'', 1)])]\<rparr>"
  by (rule senderless_message_changes_nothing) simp

text \<open>
  C8. For every input message list and every entry of the \<open>userStats\<close> table returned by
  \<open>analyzeChat\<close> (either file), each of the five media counters is at most the entry's
  \<open>messages\<close> counter.
\<close>

theorem media_counters_at_most_messages:
  assumes "index_analyzeChat tz d = Inr r \<or> chat_analyzeChat tz d = Inr r"
    "(k, s) \<in> set (userStats r)"
  shows "photos (media s) \<le> messages s \<and> videoMessages (media s) \<le> messages s \<and>
         videoFiles (media s) \<le> messages s \<and> voice (media s) \<le> messages s \<and>
         stickers (media s) \<le> messages s"
proof -
  from assms(1) have r: "index_analyzeChat tz d = Inr r"
    by (simp add: chat_analyzeChat_eq_index)
  have "all_users counters_bounded (userStats r)"
    by (rule all_users_analyzeChat [OF r]) (auto simp: counters_bounded_bump counters_bounded_zero)
  moreover have "obj_get (userStats r) k = Some s"
    using r assms(2) by (rule entry_userStats)
  ultimately have "counters_bounded s"
    by (simp add: all_users_def)
  then show ?thesis
    by (simp add: counters_bounded_def)
qed

theorem media_counters_at_most_messages_witness:
  "index_analyzeChat (\<lambda>t. 0)
      \<lparr>chat_messages =
         [\<lparr>from_id = Some ''u1'', from_name = Some ''Al'', photo = Some ''p.jpg'',
           media_type = Some ''sticker'', date_unixtime = ''1700000000''\<rparr>,
          \<lparr>from_id = Some ''u1'', from_name = None, photo = None,
           media_type = Some ''sticker'', date_unixtime = ''abc''\<rparr>]\<rparr>
     = Inr \<lparr>userStats =
              [(''u1'', \<lparr>messages = 2, media = \<lparr>photos = 1, videoMessages = 0, videoFiles = 0,
                                                voice = 0, stickers = 2\<rparr>\<rparr>)],
            userNames = [(''u1'', ''Al'')],
            timeStats = [(''Tuesday'', [(''22'', 1)]), (''Invalid Date'', [(''NaN'', 1)])]\<rparr>
   \<and> photos \<lparr>photos = 1, videoMessages = 0, videoFiles = 0, voice = 0, stickers = 2\<rparr> \<le> (2 :: nat)
   \<and> stickers \<lparr>photos = 1, videoMessages = 0, videoFiles = 0, voice = 0, stickers = 2\<rparr> \<le> (2 :: nat)"
proof -
  have run:
    "index_analyzeChat (\<lambda>t. 0)
      \<lparr>chat_messages =
         [\<lparr>from_id = Some ''u1'', from_name = Some ''Al'', photo = Some ''p.jpg'',
           media_type = Some ''sticker'', date_unixtime = ''1700000000''\<rparr>,
          \<lparr>from_id = Some ''u1'', from_name = None, photo = None,
           media_type = Some ''sticker'', date_unixtime = ''abc''\<rparr>]\<rparr>
     = Inr \<lparr>userStats =
              [(''u1'', \<lparr>messages = 2, media = \<lparr>photos = 1, videoMessages = 0, videoFiles = 0,
                                                voice = 0, stickers = 2\<rparr>\<rparr>)],
            userNames = [(''u1'', ''Al'')],
            timeStats = [(''Tuesday'', [(''22'', 1)]), (''Invalid Date'', [(''NaN'', 1)])]\<rparr>"
    by (simp add: index_analyzeChat_def index_body_def js_eval)
  from media_counters_at_most_messages [OF disjI1 [OF run], of "''u1''"
      "\<lparr>messages = 2, media = \<lparr>photos = 1, videoMessages = 0, videoFiles = 0,
                                  voice = 0, stickers = 2\<rparr>\<rparr>"] run
  show ?thesis by simp
qed

text \<open>
  C9. For every input message list and every sender id that has an entry in the name
  index returned by \<open>analyzeChat\<close> (either file), the entry is the \<open>from\<close> field of the
  last message, in input order, that carries this id and a non-empty \<open>from\<close>; and an id
  with no such message has no entry. Every id but \<open>__proto__\<close> that has such a message
  has an entry; an assignment to the key \<open>__proto__\<close> goes to the setter of
  \<open>Object.prototype\<close>, which ignores a string, so this id never has one. No id has two
  entries.
\<close>

theorem userNames_last_write_wins:
  assumes "index_analyzeChat tz d = Inr r \<or> chat_analyzeChat tz d = Inr r"
  shows "(obj_get (userNames r) k = Some n \<longrightarrow> latestName (chat_messages d) k = Some n)
       \<and> (latestName (chat_messages d) k = None \<longrightarrow> obj_get (userNames r) k = None)
       \<and> (k \<noteq> ''__proto__'' \<longrightarrow> obj_get (userNames r) k = latestName (chat_messages d) k)
       \<and> obj_get (userNames r) ''__proto__'' = None
       \<and> distinct (map fst (userNames r))"
proof -
  from assms have r: "index_analyzeChat tz d = Inr r"
    by (simp add: chat_analyzeChat_eq_index)
  have entry: "obj_get (userNames r) k' =
                 (if k' = ''__proto__'' then None else latestName (chat_messages d) k')" for k'
    by (simp only: analyzeChat_effect(2) [OF r] userNames_foldl)
  have "distinct (map fst (userNames r))"
    unfolding analyzeChat_effect(2) [OF r] by (rule distinct_foldl_record_name) simp
  then show ?thesis
    by (simp add: entry)
qed

theorem userNames_last_write_wins_witness:
  "index_analyzeChat (\<lambda>t. 0)
      \<lparr>chat_messages =
         [\<lparr>from_id = Some ''u1'', from_name = Some ''Al'', photo = None,
           media_type = None, date_unixtime = ''0''\<rparr>,
          \<lparr>from_id = Some ''u2'', from_name = None, photo = None,
           media_type = None, date_unixtime = ''0''\<rparr>,
          \<lparr>from_id = Some ''u1'', from_name = Some ''Bo'', photo = None,
           media_type = None, date_unixtime = ''0''\<rparr>]\<rparr>
     = Inr \<lparr>userStats =
              [(''u1'', \<lparr>messages = 2, media = \<lparr>photos = 0, videoMessages = 0, videoFiles = 0,
                                                voice = 0, stickers = 0\<rparr>\<rparr>),
               (''u2'', \<lparr>messages = 1, media = \<lparr>photos = 0, videoMessages = 0, videoFiles = 0,
                                                voice = 0, stickers = 0\<rparr>\<rparr>)],
            userNames = [(''u1'', ''Bo'')],
            timeStats = [(''Thursday'', [(''0'', 3)])]\<rparr>
   \<and> obj_get [(''u1'', ''Bo'')] ''u1'' = Some ''Bo''
   \<and> latestName
        [\<lparr>from_id = Some ''u1'', from_name = Some ''Al'', photo = None,
          media_type = None, date_unixtime = ''0''\<rparr>,
         \<lparr>from_id = Some ''u2'', from_name = None, photo = None,
          media_type = None, date_unixtime = ''0''\<rparr>,
         \<lparr>from_id = Some ''u1'', from_name = Some ''Bo'', photo = None,
          media_type = None, date_unixtime = ''0''\<rparr>] ''u1'' = Some ''Bo''
   \<and> latestName
        [\<lparr>from_id = Some ''u1'', from_name = Some ''Al'', photo = None,
          media_type = None, date_unixtime = ''0''\<rparr>,
         \<lparr>from_id = Some ''u2'', from_name = None, photo = None,
          media_type = None, date_unixtime = ''0''\<rparr>,
         \<lparr>from_id = Some ''u1'', from_name = Some ''Bo'', photo = None,
          media_type = None, date_unixtime = ''0''\<rparr>] ''u2'' = None
   \<and> obj_get [(''u1'', ''Bo'')] ''u2'' = None"
proof -
  let ?ms =
    "[\<lparr>from_id = Some ''u1'', from_name = Some ''Al'', photo = None,
       media_type = None, date_unixtime = ''0''\<rparr>,
      \<lparr>from_id = Some ''u2'', from_name = None, photo = None,
       media_type = None, date_unixtime = ''0''\<rparr>,
      \<lparr>from_id = Some ''u1'', from_name = Some ''Bo'', photo = None,
       media_type = None, date_unixtime = ''0''\<rparr>]"
  let ?r =
    "\<lparr>userStats =
        [(''u1'', \<lparr>messages = 2, media = \<lparr>photos = 0, videoMessages = 0, videoFiles = 0,
                                          voice = 0, stickers = 0\<rparr>\<rparr>),
         (''u2'', \<lparr>messages = 1, media = \<lparr>photos = 0, videoMessages = 0, videoFiles = 0,
                                          voice = 0, stickers = 0\<rparr>\<rparr>)],
      userNames = [(''u1'', ''Bo'')],
      timeStats = [(''Thursday'', [(''0'', 3)])]\<rparr>"
  have run: "index_analyzeChat (\<lambda>t. 0) \<lparr>chat_messages = ?ms\<rparr> = Inr ?r"
    by (simp add: index_analyzeChat_def index_body_def js_eval)
  have sel: "userNames ?r = [(''u1'', ''Bo'')]" "chat_messages \<lparr>chat_messages = ?ms\<rparr> = ?ms"
    by simp_all
  have entry: "obj_get [(''u1'', ''Bo'')] ''u1'' = Some ''Bo''"
    by (simp add: obj_get_def)
  have none: "latestName ?ms ''u2'' = None"
    by (simp add: latestName_def names_sender_def truthy_def)
  note known = userNames_last_write_wins [OF disjI1 [OF run], of "''u1''" "''Bo''", unfolded sel]
  note unknown = userNames_last_write_wins [OF disjI1 [OF run], of "''u2''" "''Bo''", unfolded sel]
  from known have "obj_get [(''u1'', ''Bo'')] ''u1'' = Some ''Bo'' \<longrightarrow> latestName ?ms ''u1'' = Some ''Bo''"
    by (rule conjunct1)
  from this entry have latest: "latestName ?ms ''u1'' = Some ''Bo''"
    by (rule mp)
  from unknown have "latestName ?ms ''u2'' = None \<longrightarrow> obj_get [(''u1'', ''Bo'')] ''u2'' = None"
    by (rule conjunct1 [OF conjunct2])
  from this none have absent: "obj_get [(''u1'', ''Bo'')] ''u2'' = None"
    by (rule mp)
  from run entry latest none absent show ?thesis
    by (intro conjI)
qed

text \<open>
  C10. For every input message list, every entry of the \<open>userStats\<close> table returned by
  \<open>analyzeChat\<close> (either file) has \<open>messages\<close> at least 1; so the divisor
  \<open>stats.messages\<close> is not zero for any entry that \<open>calculatePercentages\<close> iterates over
  (the entries \<open>Object.entries\<close> lists).
\<close>

theorem userStats_messages_positive:
  assumes "index_analyzeChat tz d = Inr r \<or> chat_analyzeChat tz d = Inr r"
    "(k, s) \<in> set (obj_entries (userStats r))"
  shows "1 \<le> messages s"
proof -
  from assms(1) have r: "index_analyzeChat tz d = Inr r"
    by (simp add: chat_analyzeChat_eq_index)
  have "all_users (\<lambda>s. 1 \<le> messages s) (userStats r)"
    by (rule all_users_analyzeChat [OF r]) (simp add: messages_bump)
  moreover have "obj_get (userStats r) k = Some s"
    using assms(2) by (simp add: entry_userStats [OF r] set_obj_entries)
  ultimately show ?thesis
    by (simp add: all_users_def)
qed

theorem userStats_messages_positive_witness:
  "chat_analyzeChat (\<lambda>t. 0)
      \<lparr>chat_messages =
         [\<lparr>from_id = None, from_name = Some ''Al'', photo = None,
           media_type = None, date_unixtime = ''1700000000''\<rparr>,
          \<lparr>from_id = Some ''u2'', from_name = None, photo = None,
           media_type = None, date_unixtime = ''1700000060''\<rparr>]\<rparr>
     = Inr \<lparr>userStats =
              [(''u2'', \<lparr>messages = 1, media = \<lparr>photos = 0, videoMessages = 0, videoFiles = 0,
                                                voice = 0, stickers = 0\<rparr>\<rparr>)],
            userNames = [], timeStats = [(''Tuesday'', [(''22'', 1)])]\<rparr>
   \<and> (''u2'', \<lparr>messages = 1, media = \<lparr>photos = 0, videoMessages = 0, videoFiles = 0,
                                       voice = 0, stickers = 0\<rparr>\<rparr>)
       \<in> set (obj_entries
            [(''u2'', \<lparr>messages = 1, media = \<lparr>photos = 0, videoMessages = 0, videoFiles = 0,
                                              voice = 0, stickers = 0\<rparr>\<rparr>)])
   \<and> (1 :: nat) \<le> messages \<lparr>messages = 1, media = \<lparr>photos = 0, videoMessages = 0,
                               videoFiles = 0, voice = 0, stickers = 0\<rparr>\<rparr>"
proof -
  have run:
    "chat_analyzeChat (\<lambda>t. 0)
      \<lparr>chat_messages =
         [\<lparr>from_id = None, from_name = Some ''Al'', photo = None,
           media_type = None, date_unixtime = ''1700000000''\<rparr>,
          \<lparr>from_id = Some ''u2'', from_name = None, photo = None,
           media_type = None, date_unixtime = ''1700000060''\<rparr>]\<rparr>
     = Inr \<lparr>userStats =
              [(''u2'', \<lparr>messages = 1, media = \<lparr>photos = 0, videoMessages = 0, videoFiles = 0,
                                                voice = 0, stickers = 0\<rparr>\<rparr>)],
            userNames = [], timeStats = [(''Tuesday'', [(''22'', 1)])]\<rparr>"
    by (simp add: chat_analyzeChat_def chat_body_def js_eval)
  have entry:
    "(''u2'', \<lparr>messages = 1, media = \<lparr>photos = 0, videoMessages = 0, videoFiles = 0,
                                       voice = 0, stickers = 0\<rparr>\<rparr>)
       \<in> set (obj_entries (userStats
            \<lparr>userStats =
              [(''u2'', \<lparr>messages = 1, media = \<lparr>photos = 0, videoMessages = 0, videoFiles = 0,
                                                voice = 0, stickers = 0\<rparr>\<rparr>)],
            userNames = [], timeStats = [(''Tuesday'', [(''22'', 1)])]\<rparr>))"
    by (simp add: set_obj_entries)
  from userStats_messages_positive [OF disjI2 [OF run] entry] run entry
  show ?thesis by simp
qed

text \<open>
  C1. The specification states: the histogram cells add up to the number of input messages with a
  parseable timestamp, whether or not a message carries a sender id. The loop body
  returns before it reaches the histogram when \<open>from_id\<close> is absent or empty, and it
  counts a message with a sender in the cell \<open>Invalid Date\<close>, \<open>NaN\<close> when the timestamp
  does not parse. So the cells add up to the number of input messages that have a
  sender.
\<close>

theorem histogram_sum_counts_senders:
  assumes "index_analyzeChat tz d = Inr r \<or> chat_analyzeChat tz d = Inr r"
  shows "histogram_total (timeStats r) = length (filter has_sender (chat_messages d))"
  using assms by (auto simp: chat_analyzeChat_eq_index histogram_total_analyzeChat)

theorem histogram_sum_counts_senders_witness:
  "chat_analyzeChat (\<lambda>t. 0)
      \<lparr>chat_messages =
         [\<lparr>from_id = Some ''u1'', from_name = Some ''Al'', photo = None,
           media_type = None, date_unixtime = ''1700000000''\<rparr>,
          \<lparr>from_id = None, from_name = Some ''Bo'', photo = None,
           media_type = None, date_unixtime = ''1700000060''\<rparr>,
          \<lparr>from_id = Some ''toString'', from_name = None, photo = None,
           media_type = None, date_unixtime = ''abc''\<rparr>]\<rparr>
     = Inr \<lparr>userStats =
              [(''u1'', \<lparr>messages = 1, media = \<lparr>photos = 0, videoMessages = 0, videoFiles = 0,
                                                voice = 0, stickers = 0\<rparr>\<rparr>)],
            userNames = [(''u1'', ''Al'')],
            timeStats = [(''Tuesday'', [(''22'', 1)]), (''Invalid Date'', [(''NaN'', 1)])]\<rparr>
   \<and> histogram_total [(''Tuesday'', [(''22'', 1)]), (''Invalid Date'', [(''NaN'', 1)])] = 2
   \<and> length (filter has_sender
        [\<lparr>from_id = Some ''u1'', from_name = Some ''Al'', photo = None,
          media_type = None, date_unixtime = ''1700000000''\<rparr>,
         \<lparr>from_id = None, from_name = Some ''Bo'', photo = None,
          media_type = None, date_unixtime = ''1700000060''\<rparr>,
         \<lparr>from_id = Some ''toString'', from_name = None, photo = None,
          media_type = None, date_unixtime = ''abc''\<rparr>]) = 2"
proof -
  have run:
    "chat_analyzeChat (\<lambda>t. 0)
      \<lparr>chat_messages =
         [\<lparr>from_id = Some ''u1'', from_name = Some ''Al'', photo = None,
           media_type = None, date_unixtime = ''1700000000''\<rparr>,
          \<lparr>from_id = None, from_name = Some ''Bo'', photo = None,
           media_type = None, date_unixtime = ''1700000060''\<rparr>,
          \<lparr>from_id = Some ''toString'', from_name = None, photo = None,
           media_type = None, date_unixtime = ''abc''\<rparr>]\<rparr>
     = Inr \<lparr>userStats =
              [(''u1'', \<lparr>messages = 1, media = \<lparr>photos = 0, videoMessages = 0, videoFiles = 0,
                                                voice = 0, stickers = 0\<rparr>\<rparr>)],
            userNames = [(''u1'', ''Al'')],
            timeStats = [(''Tuesday'', [(''22'', 1)]), (''Invalid Date'', [(''NaN'', 1)])]\<rparr>"
    by (simp add: chat_analyzeChat_def chat_body_def js_eval)
  have total: "histogram_total [(''Tuesday'', [(''22'', 1)]), (''Invalid Date'', [(''NaN'', 1)])] = 2"
    by (simp add: histogram_total_def cell_total_def)
  from histogram_sum_counts_senders [OF disjI2 [OF run]] run total
  show ?thesis by simp
qed

text \<open>
  Against the statement as written: one message without a sender and with the timestamp
  \<open>0\<close> gives an empty histogram although its timestamp parses; one message with a
  sender and the timestamp \<open>abc\<close> is counted although its timestamp does not parse.
\<close>

theorem histogram_sum_counterexample:
  "index_analyzeChat (\<lambda>t. 0)
      \<lparr>chat_messages = [\<lparr>from_id = None, from_name = Some ''Al'', photo = None,
                         media_type = None, date_unixtime = ''0''\<rparr>]\<rparr>
     = Inr \<lparr>userStats = [], userNames = [], timeStats = []\<rparr>
   \<and> chat_analyzeChat (\<lambda>t. 0)
      \<lparr>chat_messages = [\<lparr>from_id = None, from_name = Some ''Al'', photo = None,
                         media_type = None, date_unixtime = ''0''\<rparr>]\<rparr>
     = Inr \<lparr>userStats = [], userNames = [], timeStats = []\<rparr>
   \<and> histogram_total [] = 0
   \<and> length (filter parseable_timestamp
        [\<lparr>from_id = None, from_name = Some ''Al'', photo = None,
          media_type = None, date_unixtime = ''0''\<rparr>]) = 1
   \<and> index_analyzeChat (\<lambda>t. 0)
      \<lparr>chat_messages = [\<lparr>from_id = Some ''u1'', from_name = Some ''Al'', photo = None,
                         media_type = None, date_unixtime = ''abc''\<rparr>]\<rparr>
     = Inr \<lparr>userStats =
              [(''u1'', \<lparr>messages = 1, media = \<lparr>photos = 0, videoMessages = 0, videoFiles = 0,
                                                voice = 0, stickers = 0\<rparr>\<rparr>)],
            userNames = [(''u1'', ''Al'')],
            timeStats = [(''Invalid Date'', [(''NaN'', 1)])]\<rparr>
   \<and> chat_analyzeChat (\<lambda>t. 0)
      \<lparr>chat_messages = [\<lparr>from_id = Some ''u1'', from_name = Some ''Al'', photo = None,
                         media_type = None, date_unixtime = ''abc''\<rparr>]\<rparr>
     = Inr \<lparr>userStats =
              [(''u1'', \<lparr>messages = 1, media = \<lparr>photos = 0, videoMessages = 0, videoFiles = 0,
                                                voice = 0, stickers = 0\<rparr>\<rparr>)],
            userNames = [(''u1'', ''Al'')],
            timeStats = [(''Invalid Date'', [(''NaN'', 1)])]\<rparr>
   \<and> histogram_total [(''Invalid Date'', [(''NaN'', 1)])] = 1
   \<and> length (filter parseable_timestamp
        [\<lparr>from_id = Some ''u1'', from_name = Some ''Al'', photo = None,
          media_type = None, date_unixtime = ''abc''\<rparr>]) = 0"
  by (simp add: index_analyzeChat_def index_body_def chat_analyzeChat_def chat_body_def js_eval
        histogram_total_def cell_total_def parseable_timestamp_def)

section \<open>Properties of the peak finder and of the two files\<close>

text \<open>
  C2. The specification states: on the empty histogram \<open>findPeakTime\<close> returns the sentinel
  \<open>{day: "", hour: -1, count: 0}\<close> in both files and does not raise. \<open>src/index.ts\<close>
  does. \<open>src/chat.ts\<close> goes on to \<open>Object.keys(timeStats[peakDay])\<close> with \<open>peakDay = ""\<close>,
  which is \<open>Object.keys(undefined)\<close>: a \<open>TypeError\<close>.
\<close>

theorem findPeakTime_empty_histogram:
  "index_findPeakTime [] = \<lparr>peakDay = '''', peakHour = IntNum (- 1), maxMessages = 0\<rparr>
   \<and> chat_findPeakTime toString [] = Inl TypeError"
  by (simp add: index_findPeakTime_def chat_findPeakTime_def obj_entries_def obj_get_def noPeak_def)

text \<open>
  C5. The specification states: the two files compute the same. \<open>analyzeChat\<close> and
  \<open>calculatePercentages\<close> do, for every input (\<open>analyzeChat\<close> of one file raises
  exactly when the other does); \<open>findPeakTime\<close> of \<open>src/chat.ts\<close> returns
  the result of \<open>src/index.ts\<close> extended by the average whenever the histogram has an
  entry for the peak day, and raises otherwise, as on the empty histogram, where
  \<open>src/index.ts\<close> returns the sentinel.
\<close>

theorem two_files_agree_but_for_empty_peak:
  "chat_analyzeChat tz d = index_analyzeChat tz d
   \<and> chat_calculatePercentages toString us n = index_calculatePercentages toString us n
   \<and> chat_findPeakTime toString ts =
       (case obj_get ts (peakDay (index_findPeakTime ts)) of
          None \<Rightarrow> Inl TypeError
        | Some hours \<Rightarrow>
            Inr (PeakTime.extend (index_findPeakTime ts)
                   \<lparr>averageMessages =
                      toFixed2 toString
                        (js_div (maxMessages (index_findPeakTime ts)) (length (obj_keys hours)))\<rparr>))
   \<and> index_findPeakTime [] = noPeak
   \<and> chat_findPeakTime toString [] = Inl TypeError"
proof -
  have "chat_calculatePercentages toString us n = index_calculatePercentages toString us n"
    unfolding chat_calculatePercentages_def index_calculatePercentages_def by (rule refl)
  moreover have "index_findPeakTime [] = noPeak"
    by (simp add: index_findPeakTime_def obj_entries_def)
  moreover have "chat_findPeakTime toString [] = Inl TypeError"
    by (simp add: chat_findPeakTime_def obj_entries_def obj_get_def)
  ultimately show ?thesis
    using chat_analyzeChat_eq_index [of tz d] chat_findPeakTime_index [of toString ts]
    by simp
qed

text \<open>
  C6. For every non-empty TimeHistogram, \<open>findPeakTime\<close> of \<open>src/chat.ts\<close> returns;
  \<open>maxMessages\<close> is the count of a cell of the peak day and no cell counts more; and
  \<open>averageMessages\<close> is \<open>maxMessages\<close> divided by the number of hour keys of the peak
  day (pairwise different), printed with two decimals.
\<close>

theorem averageMessages_divides_by_hour_buckets:
  assumes "time_histogram ts" "ts \<noteq> []"
  shows "\<exists>r hours h.
           chat_findPeakTime toString ts = Inr r \<and>
           obj_get ts (peakDay r) = Some hours \<and>
           (h, maxMessages r) \<in> set hours \<and> peakHour r = parseInt h \<and>
           (\<forall>d hs h' c. (d, hs) \<in> set ts \<and> (h', c) \<in> set hs \<longrightarrow> c \<le> maxMessages r) \<and>
           distinct (obj_keys hours) \<and>
           averageMessages r = toFixed2 toString (js_div (maxMessages r) (length (obj_keys hours)))"
proof -
  have keys: "distinct (map fst ts)"
    using assms(1) by (simp add: time_histogram_def)
  from chat_findPeakTime_average [OF time_histogram_positive [OF assms] keys, of toString]
  obtain r hours h where
    r: "chat_findPeakTime toString ts = Inr r" "obj_get ts (peakDay r) = Some hours"
       "(h, maxMessages r) \<in> set hours" "peakHour r = parseInt h"
       "\<forall>d hs h' c. (d, hs) \<in> set ts \<and> (h', c) \<in> set hs \<longrightarrow> c \<le> maxMessages r"
       "averageMessages r = toFixed2 toString (js_div (maxMessages r) (length (obj_keys hours)))"
    by blast
  have "(peakDay r, hours) \<in> set ts"
    using r(2) by (simp add: obj_get_def map_of_SomeD)
  then have "distinct (map fst hours)"
    using assms(1) by (auto simp: time_histogram_def)
  then have "distinct (obj_keys hours)"
    by (simp add: obj_keys_def distinct_obj_entries)
  with r show ?thesis by blast
qed

text \<open>
  On Monday with 3 messages at 10 and 1 at 14, and Tuesday with 1 at 2, the average is
  3 / 2, printed \<open>1.50\<close>; 3 / 24 would print \<open>0.13\<close>.
\<close>

lemma array_index_examples:
  "is_array_index ''10''" "is_array_index ''14''" "is_array_index ''2''"
  "\<not> is_array_index ''Monday''" "\<not> is_array_index ''Tuesday''"
  by (simp_all add: is_array_index_def digits_value_def digit_of_def digit_char_def
        show_nat.simps)

theorem averageMessages_divides_by_hour_buckets_witness:
  "time_histogram [(''Monday'', [(''14'', 1), (''10'', 3)]), (''Tuesday'', [(''2'', 1)])]
   \<and> [(''Monday'', [(''14'', 1 :: nat), (''10'', 3)]), (''Tuesday'', [(''2'', 1)])] \<noteq> []
   \<and> (\<exists>r hours h.
         chat_findPeakTime (\<lambda>x. []) [(''Monday'', [(''14'', 1), (''10'', 3)]), (''Tuesday'', [(''2'', 1)])]
           = Inr r \<and>
         obj_get [(''Monday'', [(''14'', 1), (''10'', 3)]), (''Tuesday'', [(''2'', 1)])] (peakDay r)
           = Some hours \<and>
         (h, maxMessages r) \<in> set hours \<and> peakHour r = parseInt h \<and>
         averageMessages r = toFixed2 (\<lambda>x. []) (js_div (maxMessages r) (length (obj_keys hours))))
   \<and> chat_findPeakTime (\<lambda>x. []) [(''Monday'', [(''14'', 1), (''10'', 3)]), (''Tuesday'', [(''2'', 1)])]
       = Inr \<lparr>peakDay = ''Monday'', peakHour = IntNum 10, maxMessages = 3,
              averageMessages = ''1.50''\<rparr>
   \<and> toFixed2 (\<lambda>x. []) (js_div 3 24) = ''0.13''"
proof -
  have pos: "time_histogram [(''Monday'', [(''14'', 1), (''10'', 3)]), (''Tuesday'', [(''2'', 1)])]"
    by (simp add: time_histogram_def)
  have dist: "[(''Monday'', [(''14'', 1 :: nat), (''10'', 3)]), (''Tuesday'', [(''2'', 1)])] \<noteq> []"
    by simp
  have run: "chat_findPeakTime (\<lambda>x. []) [(''Monday'', [(''14'', 1), (''10'', 3)]), (''Tuesday'', [(''2'', 1)])]
       = Inr \<lparr>peakDay = ''Monday'', peakHour = IntNum 10, maxMessages = 3,
              averageMessages = ''1.50''\<rparr>"
    by (simp add: chat_findPeakTime_def obj_entries_def obj_keys_def obj_get_def
          array_index_examples noPeak_def digits_value_def digit_of_def parseInt_def
          trimStart.simps leading_white_space_def white_space_def double_eval)
  have other: "toFixed2 (\<lambda>x. []) (js_div 3 24) = ''0.13''"
    by (simp add: double_eval)
  from averageMessages_divides_by_hour_buckets [OF pos dist, of "\<lambda>x. []"]
  have "\<exists>r hours h.
         chat_findPeakTime (\<lambda>x. []) [(''Monday'', [(''14'', 1), (''10'', 3)]), (''Tuesday'', [(''2'', 1)])]
           = Inr r \<and>
         obj_get [(''Monday'', [(''14'', 1), (''10'', 3)]), (''Tuesday'', [(''2'', 1)])] (peakDay r)
           = Some hours \<and>
         (h, maxMessages r) \<in> set hours \<and> peakHour r = parseInt h \<and>
         averageMessages r = toFixed2 (\<lambda>x. []) (js_div (maxMessages r) (length (obj_keys hours)))"
    by blast
  with pos dist run other show ?thesis
    by (intro conjI)
qed

section \<open>Shares of the grand total\<close>

text \<open>
  C4. The specification states: for every media kind, the per-user \<open>totalPercentage\<close> strings of
  \<open>calculatePercentages\<close>, read as numbers and added up, give exactly that kind's share
  of the grand total (the overall count of the kind / grand total * 100, with two
  decimals). Every summand is rounded to two decimals on its own, so the sum can miss
  the rounded share of the whole. What holds, in hundredths of a percent: for a
  non-empty message list (shorter than \<open>2^32\<close>, as every JavaScript array is) analysed
  by \<open>analyzeChat\<close>, the sum over the \<open>k\<close> users differs from the rounded share of the
  whole by at most \<open>(k + 1) div 2\<close>, that is half a hundredth for each rounded number.
\<close>

theorem shares_sum_within_rounding:
  assumes "chat_messages d \<noteq> []" "length (chat_messages d) < 2 ^ 32"
    "index_analyzeChat tz d = Inr r \<or> chat_analyzeChat tz d = Inr r"
  shows "\<bar>int (shares_sum kind
               (index_calculatePercentages f (userStats r) (length (chat_messages d))))
          - int (percent_hundredths
               (percent f (kind_sum kind (userStats r)) (length (chat_messages d))))\<bar>
         \<le> (int (length (userStats r)) + 1) div 2
       \<and> \<bar>int (shares_sum kind
               (chat_calculatePercentages f (userStats r) (length (chat_messages d))))
          - int (percent_hundredths
               (percent f (kind_sum kind (userStats r)) (length (chat_messages d))))\<bar>
         \<le> (int (length (userStats r)) + 1) div 2"
proof -
  from assms(3) have r: "index_analyzeChat tz d = Inr r"
    by (simp add: chat_analyzeChat_eq_index)
  from shares_sum_index [OF assms(1,2) r, of kind f] show ?thesis
    by (simp add: chat_calculatePercentages_eq_index)
qed

text \<open>
  Two users with one photo each and a third message without sender: each user's share
  of the total is \<open>33.33%\<close>, together \<open>66.66\<close>; the share of the two photos in three
  messages is \<open>66.67%\<close>.
\<close>

lemma example_analysis:
  "index_analyzeChat (\<lambda>t. 0)
      \<lparr>chat_messages =
         [\<lparr>from_id = Some ''u1'', from_name = None, photo = Some ''a.jpg'',
           media_type = None, date_unixtime = ''0''\<rparr>,
          \<lparr>from_id = Some ''u2'', from_name = None, photo = Some ''b.jpg'',
           media_type = None, date_unixtime = ''0''\<rparr>,
          \<lparr>from_id = None, from_name = None, photo = None,
           media_type = None, date_unixtime = ''0''\<rparr>]\<rparr>
   = Inr \<lparr>userStats =
            [(''u1'', \<lparr>messages = 1, media = \<lparr>photos = 1, videoMessages = 0, videoFiles = 0,
                                              voice = 0, stickers = 0\<rparr>\<rparr>),
             (''u2'', \<lparr>messages = 1, media = \<lparr>photos = 1, videoMessages = 0, videoFiles = 0,
                                              voice = 0, stickers = 0\<rparr>\<rparr>)],
          userNames = [], timeStats = [(''Thursday'', [(''0'', 2)])]\<rparr>"
  by (simp add: index_analyzeChat_def index_body_def js_eval)

lemma example_percent:
  "percent (\<lambda>x. []) 1 3 = ''33.33%''" "percent (\<lambda>x. []) 2 3 = ''66.67%''"
  by (simp_all add: percent_def double_eval)

lemma example_hundredths:
  "percent_hundredths ''33.33%'' = 3333" "percent_hundredths ''66.67%'' = 6667"
  by (simp_all add: percent_hundredths_def digits_value_def digit_of_def)

lemma example_shares:
  "map (\<lambda>kv. kind_totalPercentage Photos (snd kv))
     (index_calculatePercentages (\<lambda>x. [])
        [(''u1'', \<lparr>messages = 1, media = \<lparr>photos = 1, videoMessages = 0, videoFiles = 0,
                                          voice = 0, stickers = 0\<rparr>\<rparr>),
         (''u2'', \<lparr>messages = 1, media = \<lparr>photos = 1, videoMessages = 0, videoFiles = 0,
                                          voice = 0, stickers = 0\<rparr>\<rparr>)] 3)
   = [''33.33%'', ''33.33%'']"
  "shares_sum Photos
     (index_calculatePercentages (\<lambda>x. [])
        [(''u1'', \<lparr>messages = 1, media = \<lparr>photos = 1, videoMessages = 0, videoFiles = 0,
                                          voice = 0, stickers = 0\<rparr>\<rparr>),
         (''u2'', \<lparr>messages = 1, media = \<lparr>photos = 1, videoMessages = 0, videoFiles = 0,
                                          voice = 0, stickers = 0\<rparr>\<rparr>)] 3) = 6666"
  "percent (\<lambda>x. [])
     (kind_sum Photos
        [(''u1'', \<lparr>messages = 1, media = \<lparr>photos = 1, videoMessages = 0, videoFiles = 0,
                                          voice = 0, stickers = 0\<rparr>\<rparr>),
         (''u2'', \<lparr>messages = 1, media = \<lparr>photos = 1, videoMessages = 0, videoFiles = 0,
                                          voice = 0, stickers = 0\<rparr>\<rparr>)]) 3 = ''66.67%''"
proof -
  define s1 where
    "s1 = \<lparr>messages = 1, media = \<lparr>photos = 1, videoMessages = 0, videoFiles = 0,
                                     voice = 0, stickers = 0\<rparr>\<rparr>"
  have count: "kind_count Photos s1 = 1"
    by (simp add: s1_def)
  have share: "kind_totalPercentage Photos (percentages_of (\<lambda>x. []) 3 s1) = ''33.33%''"
    by (simp only: kind_totalPercentage_of count example_percent)
  have table: "index_calculatePercentages (\<lambda>x. []) [(''u1'', s1), (''u2'', s1)] 3
                 = [(''u1'', percentages_of (\<lambda>x. []) 3 s1), (''u2'', percentages_of (\<lambda>x. []) 3 s1)]"
    by (simp add: index_calculatePercentages_map obj_entries_def is_array_index_def
          digits_value_def digit_of_def show_nat.simps digit_char_def)
  have whole: "kind_sum Photos [(''u1'', s1), (''u2'', s1)] = 2"
    by (simp add: kind_sum_def s1_def)
  show "map (\<lambda>kv. kind_totalPercentage Photos (snd kv))
     (index_calculatePercentages (\<lambda>x. [])
        [(''u1'', \<lparr>messages = 1, media = \<lparr>photos = 1, videoMessages = 0, videoFiles = 0,
                                          voice = 0, stickers = 0\<rparr>\<rparr>),
         (''u2'', \<lparr>messages = 1, media = \<lparr>photos = 1, videoMessages = 0, videoFiles = 0,
                                          voice = 0, stickers = 0\<rparr>\<rparr>)] 3)
   = [''33.33%'', ''33.33%'']"
    unfolding s1_def [symmetric] table
    by (simp add: share del: kind_totalPercentage.simps)
  show "shares_sum Photos
     (index_calculatePercentages (\<lambda>x. [])
        [(''u1'', \<lparr>messages = 1, media = \<lparr>photos = 1, videoMessages = 0, videoFiles = 0,
                                          voice = 0, stickers = 0\<rparr>\<rparr>),
         (''u2'', \<lparr>messages = 1, media = \<lparr>photos = 1, videoMessages = 0, videoFiles = 0,
                                          voice = 0, stickers = 0\<rparr>\<rparr>)] 3) = 6666"
    unfolding s1_def [symmetric] table
    by (simp add: shares_sum_def share example_hundredths del: kind_totalPercentage.simps)
  show "percent (\<lambda>x. [])
     (kind_sum Photos
        [(''u1'', \<lparr>messages = 1, media = \<lparr>photos = 1, videoMessages = 0, videoFiles = 0,
                                          voice = 0, stickers = 0\<rparr>\<rparr>),
         (''u2'', \<lparr>messages = 1, media = \<lparr>photos = 1, videoMessages = 0, videoFiles = 0,
                                          voice = 0, stickers = 0\<rparr>\<rparr>)]) 3 = ''66.67%''"
    unfolding s1_def [symmetric] whole by (rule example_percent(2))
qed

theorem shares_sum_counterexample:
  "index_analyzeChat (\<lambda>t. 0)
      \<lparr>chat_messages =
         [\<lparr>from_id = Some ''u1'', from_name = None, photo = Some ''a.jpg'',
           media_type = None, date_unixtime = ''0''\<rparr>,
          \<lparr>from_id = Some ''u2'', from_name = None, photo = Some ''b.jpg'',
           media_type = None, date_unixtime = ''0''\<rparr>,
          \<lparr>from_id = None, from_name = None, photo = None,
           media_type = None, date_unixtime = ''0''\<rparr>]\<rparr>
   = Inr \<lparr>userStats =
            [(''u1'', \<lparr>messages = 1, media = \<lparr>photos = 1, videoMessages = 0, videoFiles = 0,
                                              voice = 0, stickers = 0\<rparr>\<rparr>),
             (''u2'', \<lparr>messages = 1, media = \<lparr>photos = 1, videoMessages = 0, videoFiles = 0,
                                              voice = 0, stickers = 0\<rparr>\<rparr>)],
          userNames = [], timeStats = [(''Thursday'', [(''0'', 2)])]\<rparr>
  \<and> map (\<lambda>kv. kind_totalPercentage Photos (snd kv))
     (index_calculatePercentages (\<lambda>x. [])
        [(''u1'', \<lparr>messages = 1, media = \<lparr>photos = 1, videoMessages = 0, videoFiles = 0,
                                          voice = 0, stickers = 0\<rparr>\<rparr>),
         (''u2'', \<lparr>messages = 1, media = \<lparr>photos = 1, videoMessages = 0, videoFiles = 0,
                                          voice = 0, stickers = 0\<rparr>\<rparr>)] 3)
   = [''33.33%'', ''33.33%'']
  \<and> shares_sum Photos
     (index_calculatePercentages (\<lambda>x. [])
        [(''u1'', \<lparr>messages = 1, media = \<lparr>photos = 1, videoMessages = 0, videoFiles = 0,
                                          voice = 0, stickers = 0\<rparr>\<rparr>),
         (''u2'', \<lparr>messages = 1, media = \<lparr>photos = 1, videoMessages = 0, videoFiles = 0,
                                          voice = 0, stickers = 0\<rparr>\<rparr>)] 3) = 6666
  \<and> percent (\<lambda>x. [])
     (kind_sum Photos
        [(''u1'', \<lparr>messages = 1, media = \<lparr>photos = 1, videoMessages = 0, videoFiles = 0,
                                          voice = 0, stickers = 0\<rparr>\<rparr>),
         (''u2'', \<lparr>messages = 1, media = \<lparr>photos = 1, videoMessages = 0, videoFiles = 0,
                                          voice = 0, stickers = 0\<rparr>\<rparr>)]) 3 = ''66.67%''
  \<and> percent_hundredths ''66.67%'' = 6667"
  using example_analysis example_shares example_hundredths(2) by (intro conjI)

theorem shares_sum_within_rounding_witness:
  "[\<lparr>from_id = Some ''u1'', from_name = None, photo = Some ''a.jpg'',
     media_type = None, date_unixtime = ''0''\<rparr>,
    \<lparr>from_id = Some ''u2'', from_name = None, photo = Some ''b.jpg'',
     media_type = None, date_unixtime = ''0''\<rparr>,
    \<lparr>from_id = None, from_name = None, photo = None,
     media_type = None, date_unixtime = ''0''\<rparr>] \<noteq> []
   \<and> index_analyzeChat (\<lambda>t. 0)
      \<lparr>chat_messages =
         [\<lparr>from_id = Some ''u1'', from_name = None, photo = Some ''a.jpg'',
           media_type = None, date_unixtime = ''0''\<rparr>,
          \<lparr>from_id = Some ''u2'', from_name = None, photo = Some ''b.jpg'',
           media_type = None, date_unixtime = ''0''\<rparr>,
          \<lparr>from_id = None, from_name = None, photo = None,
           media_type = None, date_unixtime = ''0''\<rparr>]\<rparr>
   = Inr \<lparr>userStats =
            [(''u1'', \<lparr>messages = 1, media = \<lparr>photos = 1, videoMessages = 0, videoFiles = 0,
                                              voice = 0, stickers = 0\<rparr>\<rparr>),
             (''u2'', \<lparr>messages = 1, media = \<lparr>photos = 1, videoMessages = 0, videoFiles = 0,
                                              voice = 0, stickers = 0\<rparr>\<rparr>)],
          userNames = [], timeStats = [(''Thursday'', [(''0'', 2)])]\<rparr>
   \<and> \<bar>int (shares_sum Photos
               (index_calculatePercentages (\<lambda>x. [])
        [(''u1'', \<lparr>messages = 1, media = \<lparr>photos = 1, videoMessages = 0, videoFiles = 0,
                                          voice = 0, stickers = 0\<rparr>\<rparr>),
         (''u2'', \<lparr>messages = 1, media = \<lparr>photos = 1, videoMessages = 0, videoFiles = 0,
                                          voice = 0, stickers = 0\<rparr>\<rparr>)] 3))
          - int (percent_hundredths
               (percent (\<lambda>x. []) (kind_sum Photos
        [(''u1'', \<lparr>messages = 1, media = \<lparr>photos = 1, videoMessages = 0, videoFiles = 0,
                                          voice = 0, stickers = 0\<rparr>\<rparr>),
         (''u2'', \<lparr>messages = 1, media = \<lparr>photos = 1, videoMessages = 0, videoFiles = 0,
                                          voice = 0, stickers = 0\<rparr>\<rparr>)]) 3))\<bar>
         \<le> 1"
proof -
  let ?ms =
    "[\<lparr>from_id = Some ''u1'', from_name = None, photo = Some ''a.jpg'',
       media_type = None, date_unixtime = ''0''\<rparr>,
      \<lparr>from_id = Some ''u2'', from_name = None, photo = Some ''b.jpg'',
       media_type = None, date_unixtime = ''0''\<rparr>,
      \<lparr>from_id = None, from_name = None, photo = None,
       media_type = None, date_unixtime = ''0''\<rparr>]"
  let ?us =
    "[(''u1'', \<lparr>messages = 1, media = \<lparr>photos = 1, videoMessages = 0, videoFiles = 0,
                                      voice = 0, stickers = 0\<rparr>\<rparr>),
      (''u2'', \<lparr>messages = 1, media = \<lparr>photos = 1, videoMessages = 0, videoFiles = 0,
                                      voice = 0, stickers = 0\<rparr>\<rparr>)]"
  let ?r = "\<lparr>userStats = ?us, userNames = [], timeStats = [(''Thursday'', [(''0'', 2 :: nat)])]\<rparr>"
  have nonempty: "chat_messages \<lparr>chat_messages = ?ms\<rparr> \<noteq> []"
    and short: "length (chat_messages \<lparr>chat_messages = ?ms\<rparr>) < 2 ^ 32"
    by simp_all
  have sel: "userStats ?r = ?us" "length (chat_messages \<lparr>chat_messages = ?ms\<rparr>) = 3"
    "length ?us = 2" "(int 2 + 1) div 2 = 1"
    by simp_all
  note bound = shares_sum_within_rounding [OF nonempty short disjI1 [OF example_analysis],
      of Photos "\<lambda>x. []", unfolded sel]
  from bound have
    "\<bar>int (shares_sum Photos (index_calculatePercentages (\<lambda>x. []) ?us 3))
      - int (percent_hundredths (percent (\<lambda>x. []) (kind_sum Photos ?us) 3))\<bar> \<le> 1"
    by (rule conjunct1)
  moreover have "?ms \<noteq> []"
    by simp
  ultimately show ?thesis
    using example_analysis by (intro conjI)
qed

section \<open>The example scenario of the specification\<close>

text \<open>
  Section 8 of the specification: two messages of \<open>u1\<close> on a Monday at 10 (one with a
  photo), a sticker of \<open>u2\<close> on that Monday at 14, and a message without sender on
  Tuesday at 2, here in UTC. The program returns the per-user counts, the share
  \<open>50.00%\<close> of \<open>u1\<close> in the four messages and the peak the specification expects; the
  histogram has no Tuesday cell, since the message without sender is skipped.
\<close>

lemma spec_example_analysis:
  "index_analyzeChat (\<lambda>t. 0)
      \<lparr>chat_messages =
         [\<lparr>from_id = Some ''u1'', from_name = None, photo = Some ''a.jpg'',
           media_type = None, date_unixtime = ''381600''\<rparr>,
          \<lparr>from_id = Some ''u1'', from_name = None, photo = None,
           media_type = None, date_unixtime = ''381700''\<rparr>,
          \<lparr>from_id = Some ''u2'', from_name = None, photo = None,
           media_type = Some ''sticker'', date_unixtime = ''396000''\<rparr>,
          \<lparr>from_id = None, from_name = None, photo = None,
           media_type = None, date_unixtime = ''439200''\<rparr>]\<rparr>
   = Inr \<lparr>userStats =
        [(''u1'', \<lparr>messages = 2, media = \<lparr>photos = 1, videoMessages = 0, videoFiles = 0,
                                          voice = 0, stickers = 0\<rparr>\<rparr>),
         (''u2'', \<lparr>messages = 1, media = \<lparr>photos = 0, videoMessages = 0, videoFiles = 0,
                                          voice = 0, stickers = 1\<rparr>\<rparr>)],
      userNames = [],
      timeStats = [(''Monday'', [(''10'', 2), (''14'', 1)])]\<rparr>"
  by (simp add: index_analyzeChat_def index_body_def js_eval)

lemma spec_example_senderless:
  "toLocaleWeekday (\<lambda>t. 0) (newDate (times1000 (parseInt ''439200''))) = ''Tuesday''"
  "getHours (\<lambda>t. 0) (newDate (times1000 (parseInt ''439200''))) = IntNum 2"
  by (simp_all add: js_eval)

lemma spec_example_peak:
  "index_findPeakTime [(''Monday'', [(''10'', 2), (''14'', 1)])]
     = \<lparr>peakDay = ''Monday'', peakHour = IntNum 10, maxMessages = 2\<rparr>"
  by (simp add: index_findPeakTime_def obj_entries_def array_index_examples noPeak_def
        digits_value_def digit_of_def parseInt_def trimStart.simps leading_white_space_def
        white_space_def)

lemma spec_example_percent: "percent (\<lambda>x. []) 2 4 = ''50.00%''"
  by (simp add: percent_def double_eval)

end
